theory Spec2Isabelle
  imports Main
begin

section \<open>The task store of synapse/storage/databases/main/task_scheduler.py\<close>

text \<open>
  \<^verbatim>\<open>TaskSchedulerWorkerStore\<close> keeps the table \<^verbatim>\<open>scheduled_tasks\<close> and offers five
  operations on it: \<^verbatim>\<open>get_scheduled_tasks\<close>, \<^verbatim>\<open>get_scheduled_task\<close>,
  \<^verbatim>\<open>upsert_scheduled_task\<close>, \<^verbatim>\<open>update_scheduled_task\<close> and
  \<^verbatim>\<open>delete_scheduled_task\<close>. Each of them is embedded below as a function that takes the
  table and returns what the method returns, together with the new table where the
  method writes. An exception is a value \<open>Inl e\<close>.
\<close>

subsection \<open>Tasks\<close>

text \<open>
  Modelled from the spec: the enum \<^verbatim>\<open>TaskStatus\<close> of \<^verbatim>\<open>synapse.types\<close> is not part of
  the source file; the spec gives its four members and their stored text
  (\<^verbatim>\<open>scheduled | active | complete | failed\<close>).
\<close>

datatype TaskStatus = SCHEDULED | ACTIVE | COMPLETE | FAILED

fun status_value :: "TaskStatus \<Rightarrow> string" where
  "status_value SCHEDULED = ''scheduled''"
| "status_value ACTIVE = ''active''"
| "status_value COMPLETE = ''complete''"
| "status_value FAILED = ''failed''"

text \<open>
  What can be raised while a row is read: the enum refuses a text that is not the value
  of a member (\<^verbatim>\<open>ValueError\<close>), and \<^verbatim>\<open>json.loads\<close> refuses a text that is not JSON
  (\<^verbatim>\<open>JSONDecodeError\<close>).
\<close>

datatype error = ValueError | JSONDecodeError

text \<open>The call \<^verbatim>\<open>TaskStatus(text)\<close>: the member with that value, or \<^verbatim>\<open>ValueError\<close>.\<close>

definition TaskStatus_of :: "string \<Rightarrow> error + TaskStatus" where
  "TaskStatus_of s =
     (if s = ''scheduled'' then Inr SCHEDULED
      else if s = ''active'' then Inr ACTIVE
      else if s = ''complete'' then Inr COMPLETE
      else if s = ''failed'' then Inr FAILED
      else Inl ValueError)"

text \<open>
  Modelled from the spec: the class \<^verbatim>\<open>ScheduledTask\<close> of \<^verbatim>\<open>synapse.types\<close> is not part
  of the source file; the spec lists its eight attributes. The type \<open>'j\<close> stands for the
  structured JSON values other than \<^verbatim>\<open>None\<close> that \<^verbatim>\<open>params\<close> and \<^verbatim>\<open>result\<close> carry;
  \<open>None\<close> is Python's \<^verbatim>\<open>None\<close>.
\<close>

record 'j ScheduledTask =
  id' :: string
  action :: string
  status :: TaskStatus
  timestamp :: int
  resource_id :: "string option"
  params :: "'j option"
  result :: "'j option"
  error :: "string option"

subsection \<open>The table\<close>

text \<open>
  Modelled from the spec: the schema of \<^verbatim>\<open>scheduled_tasks\<close> is not part of the source
  file. The spec has \<^verbatim>\<open>id\<close>, \<^verbatim>\<open>action\<close>, \<^verbatim>\<open>status\<close> as TEXT, \<^verbatim>\<open>timestamp\<close> as INTEGER,
  and \<^verbatim>\<open>resource_id\<close>, \<^verbatim>\<open>params\<close>, \<^verbatim>\<open>result\<close>, \<^verbatim>\<open>error\<close> as TEXT NULL; \<open>None\<close> is NULL.
  A row is the dictionary that \<^verbatim>\<open>cursor_to_dict\<close> and \<^verbatim>\<open>simple_select_one\<close> hand to
  \<^verbatim>\<open>_convert_row_to_task\<close>. The table is the list of its rows in the order in which a
  scan returns them; \<^verbatim>\<open>id\<close> is the primary key.
\<close>

record row =
  id_col :: string
  action_col :: string
  status_col :: string
  timestamp_col :: int
  resource_id_col :: "string option"
  params_col :: "string option"
  result_col :: "string option"
  error_col :: "string option"

type_synonym table = "row list"

definition primary_key :: "table \<Rightarrow> bool" where
  "primary_key db = distinct (map id_col db)"

datatype column = Id | Action | Status | Timestamp | Resource_id | Params | Result | Error

datatype sqlval = Null | Text string | Integer int

fun nullable :: "string option \<Rightarrow> sqlval" where
  "nullable None = Null"
| "nullable (Some s) = Text s"

fun column_value :: "row \<Rightarrow> column \<Rightarrow> sqlval" where
  "column_value r Id = Text (id_col r)"
| "column_value r Action = Text (action_col r)"
| "column_value r Status = Text (status_col r)"
| "column_value r Timestamp = Integer (timestamp_col r)"
| "column_value r Resource_id = nullable (resource_id_col r)"
| "column_value r Params = nullable (params_col r)"
| "column_value r Result = nullable (result_col r)"
| "column_value r Error = nullable (error_col r)"

subsection \<open>What the store takes from the database layer\<close>

text \<open>
  A condition of a WHERE clause with its arguments bound: \<^verbatim>\<open>column IN (v1, ..., vn)\<close> or
  \<^verbatim>\<open>column IS NULL\<close>. A row is selected when the condition is true of it; a comparison
  with NULL is not true.
\<close>

datatype clause = In_list column "sqlval list" | Is_null column

fun holds :: "clause \<Rightarrow> row \<Rightarrow> bool" where
  "holds (In_list c vs) r = (column_value r c \<noteq> Null \<and> column_value r c \<in> set vs)"
| "holds (Is_null c) r = (column_value r c = Null)"

text \<open>
  Modelled from the spec: \<^verbatim>\<open>make_in_list_sql_clause\<close> of \<^verbatim>\<open>synapse.storage.database\<close> is
  not part of the source file. The spec describes it as the helper that builds a
  "column value is one of {...}" clause and, by extension, "column IS NULL" when the set
  is empty; the docstring of \<^verbatim>\<open>get_scheduled_tasks\<close> says the same of an empty list.
\<close>

definition make_in_list_sql_clause :: "column \<Rightarrow> sqlval list \<Rightarrow> clause" where
  "make_in_list_sql_clause c iterable = (if iterable = [] then Is_null c else In_list c iterable)"

text \<open>
  Modelled from the spec: \<^verbatim>\<open>DatabasePool.simple_select_one\<close> with \<^verbatim>\<open>allow_none=True\<close> is
  not part of the source file. It looks a row up by its key and returns \<^verbatim>\<open>None\<close> when
  no row matches.
\<close>

definition simple_select_one :: "table \<Rightarrow> string \<Rightarrow> row option" where
  "simple_select_one db key = find (\<lambda>r. id_col r = key) db"

text \<open>
  Modelled from the spec: \<^verbatim>\<open>DatabasePool.simple_upsert\<close> is not part of the source file.
  It is the "insert or replace by key" primitive: a row with the key takes the given
  values; when there is none, a row with the key and the values is inserted. The
  dictionary \<^verbatim>\<open>values\<close> of the call names every column but the key, so it is given here as
  a row whose key column is set from \<^verbatim>\<open>keyvalues\<close>.
\<close>

definition simple_upsert :: "table \<Rightarrow> string \<Rightarrow> row \<Rightarrow> table" where
  "simple_upsert db key vals =
     (if key \<in> set (map id_col db)
      then map (\<lambda>r. if id_col r = key then vals\<lparr>id_col := key\<rparr> else r) db
      else db @ [vals\<lparr>id_col := key\<rparr>])"

text \<open>
  The dictionary \<^verbatim>\<open>updatevalues\<close>: for each column, \<open>None\<close> when the column is not a key of
  the dictionary and \<open>Some v\<close> when it is mapped to \<open>v\<close> (for a nullable column, \<open>Some None\<close>
  would store NULL).
\<close>

record updatevalues =
  set_id :: "string option"
  set_action :: "string option"
  set_status :: "string option"
  set_timestamp :: "int option"
  set_resource_id :: "string option option"
  set_params :: "string option option"
  set_result :: "string option option"
  set_error :: "string option option"

definition empty_dict :: updatevalues where
  "empty_dict = \<lparr>set_id = None, set_action = None, set_status = None, set_timestamp = None,
     set_resource_id = None, set_params = None, set_result = None, set_error = None\<rparr>"

definition assign :: "updatevalues \<Rightarrow> row \<Rightarrow> row" where
  "assign uv r =
     \<lparr>id_col = (case set_id uv of None \<Rightarrow> id_col r | Some v \<Rightarrow> v),
      action_col = (case set_action uv of None \<Rightarrow> action_col r | Some v \<Rightarrow> v),
      status_col = (case set_status uv of None \<Rightarrow> status_col r | Some v \<Rightarrow> v),
      timestamp_col = (case set_timestamp uv of None \<Rightarrow> timestamp_col r | Some v \<Rightarrow> v),
      resource_id_col = (case set_resource_id uv of None \<Rightarrow> resource_id_col r | Some v \<Rightarrow> v),
      params_col = (case set_params uv of None \<Rightarrow> params_col r | Some v \<Rightarrow> v),
      result_col = (case set_result uv of None \<Rightarrow> result_col r | Some v \<Rightarrow> v),
      error_col = (case set_error uv of None \<Rightarrow> error_col r | Some v \<Rightarrow> v)\<rparr>"

text \<open>
  Modelled from the spec: \<^verbatim>\<open>DatabasePool.simple_update\<close> is not part of the source file.
  It is the "conditional field-set update by key" primitive: the rows with the key take
  the values of \<^verbatim>\<open>updatevalues\<close>, and the number of rows with the key is returned.
\<close>

definition simple_update :: "table \<Rightarrow> string \<Rightarrow> updatevalues \<Rightarrow> table \<times> nat" where
  "simple_update db key uv =
     (map (\<lambda>r. if id_col r = key then assign uv r else r) db,
      length (filter (\<lambda>r. id_col r = key) db))"

text \<open>
  Modelled from the spec: \<^verbatim>\<open>DatabasePool.simple_delete\<close> is not part of the source file.
  It is the "delete by key" primitive; nothing is raised when no row has the key.
\<close>

definition simple_delete :: "table \<Rightarrow> string \<Rightarrow> table" where
  "simple_delete db key = filter (\<lambda>r. id_col r \<noteq> key) db"

subsection \<open>The store\<close>

text \<open>
  \<^verbatim>\<open>json.dumps\<close> and \<^verbatim>\<open>json.loads\<close> belong to Python's standard library. The store is
  embedded for any pair of functions \<open>dumps\<close> and \<open>loads\<close>: \<open>dumps v\<close> is the text of \<open>v\<close>,
  and \<open>loads s\<close> is \<open>Inl e\<close> when \<open>s\<close> is not JSON, \<open>Inr None\<close> when \<open>s\<close> is the text of
  \<^verbatim>\<open>None\<close>, and \<open>Inr (Some v)\<close> otherwise.
\<close>

text \<open>
  \<^verbatim>\<open>
  def _convert_row_to_task(row):
      row["status"] = TaskStatus(row["status"])
      if row["params"] is not None:
          row["params"] = json.loads(row["params"])
      if row["result"] is not None:
          row["result"] = json.loads(row["result"])
      return ScheduledTask(**row)
  \<close>
\<close>

definition convert_row_to_task ::
  "(string \<Rightarrow> error + 'j option) \<Rightarrow> row \<Rightarrow> error + 'j ScheduledTask" where
  "convert_row_to_task loads r =
     (case TaskStatus_of (status_col r) of
        Inl e \<Rightarrow> Inl e
      | Inr st \<Rightarrow>
          (case (case params_col r of None \<Rightarrow> Inr None | Some s \<Rightarrow> loads s) of
             Inl e \<Rightarrow> Inl e
           | Inr p \<Rightarrow>
               (case (case result_col r of None \<Rightarrow> Inr None | Some s \<Rightarrow> loads s) of
                  Inl e \<Rightarrow> Inl e
                | Inr res \<Rightarrow>
                    Inr \<lparr>id' = id_col r, action = action_col r, status = st,
                         timestamp = timestamp_col r, resource_id = resource_id_col r,
                         params = p, result = res, error = error_col r\<rparr>)))"

text \<open>
  The comprehension \<^verbatim>\<open>[_convert_row_to_task(row) for row in rows]\<close>: the first row that
  raises ends it.
\<close>

fun convert_rows ::
  "(string \<Rightarrow> error + 'j option) \<Rightarrow> row list \<Rightarrow> error + 'j ScheduledTask list" where
  "convert_rows loads [] = Inr []"
| "convert_rows loads (r # rs) =
     (case convert_row_to_task loads r of
        Inl e \<Rightarrow> Inl e
      | Inr t \<Rightarrow> (case convert_rows loads rs of Inl e \<Rightarrow> Inl e | Inr ts \<Rightarrow> Inr (t # ts)))"

text \<open>
  \<^verbatim>\<open>get_scheduled_tasks_txn\<close>: one clause for each argument that is not \<^verbatim>\<open>None\<close>, joined by
  AND behind WHERE when there is a clause at all.
\<close>

definition get_scheduled_tasks_txn ::
  "string list option \<Rightarrow> string list option \<Rightarrow> TaskStatus list option \<Rightarrow> table \<Rightarrow> row list" where
  "get_scheduled_tasks_txn actions resource_ids statuses db =
     (let clauses = [];
          clauses = (case actions of None \<Rightarrow> clauses
                     | Some a \<Rightarrow> clauses @ [make_in_list_sql_clause Action (map Text a)]);
          clauses = (case resource_ids of None \<Rightarrow> clauses
                     | Some a \<Rightarrow> clauses @ [make_in_list_sql_clause Resource_id (map Text a)]);
          clauses = (case statuses of None \<Rightarrow> clauses
                     | Some a \<Rightarrow> clauses @ [make_in_list_sql_clause Status
                                               (map (\<lambda>s. Text (status_value s)) a)])
      in if clauses \<noteq> []
         then filter (\<lambda>r. list_all (\<lambda>c. holds c r) clauses) db
         else db)"

definition get_scheduled_tasks ::
  "(string \<Rightarrow> error + 'j option) \<Rightarrow> table \<Rightarrow>
   string list option \<Rightarrow> string list option \<Rightarrow> TaskStatus list option \<Rightarrow>
   error + 'j ScheduledTask list" where
  "get_scheduled_tasks loads db actions resource_ids statuses =
     convert_rows loads (get_scheduled_tasks_txn actions resource_ids statuses db)"

text \<open>
  \<^verbatim>\<open>upsert_scheduled_task\<close>: every column is written; \<^verbatim>\<open>params\<close> and \<^verbatim>\<open>result\<close> are
  \<^verbatim>\<open>None if task.params is None else json.dumps(task.params)\<close>.
\<close>

definition upsert_scheduled_task ::
  "('j \<Rightarrow> string) \<Rightarrow> table \<Rightarrow> 'j ScheduledTask \<Rightarrow> table" where
  "upsert_scheduled_task dumps db task =
     simple_upsert db (id' task)
       \<lparr>id_col = id' task,
        action_col = action task,
        status_col = status_value (status task),
        timestamp_col = timestamp task,
        resource_id_col = resource_id task,
        params_col = (case params task of None \<Rightarrow> None | Some p \<Rightarrow> Some (dumps p)),
        result_col = (case result task of None \<Rightarrow> None | Some p \<Rightarrow> Some (dumps p)),
        error_col = error task\<rparr>"

text \<open>
  \<^verbatim>\<open>update_scheduled_task\<close>: an argument that is not \<^verbatim>\<open>None\<close> becomes an entry of
  \<^verbatim>\<open>updatevalues\<close>; the answer is \<^verbatim>\<open>nb_rows > 0\<close>.
\<close>

definition update_scheduled_task ::
  "('j \<Rightarrow> string) \<Rightarrow> table \<Rightarrow> string \<Rightarrow>
   int option \<Rightarrow> TaskStatus option \<Rightarrow> 'j option \<Rightarrow> string option \<Rightarrow> bool \<times> table" where
  "update_scheduled_task dumps db i timestamp' status' result' error' =
     (let uv = empty_dict;
          uv = (case timestamp' of None \<Rightarrow> uv | Some t \<Rightarrow> uv\<lparr>set_timestamp := Some t\<rparr>);
          uv = (case status' of None \<Rightarrow> uv | Some s \<Rightarrow> uv\<lparr>set_status := Some (status_value s)\<rparr>);
          uv = (case result' of None \<Rightarrow> uv | Some v \<Rightarrow> uv\<lparr>set_result := Some (Some (dumps v))\<rparr>);
          uv = (case error' of None \<Rightarrow> uv | Some e \<Rightarrow> uv\<lparr>set_error := Some (Some e)\<rparr>);
          (db', nb_rows) = simple_update db i uv
      in (nb_rows > 0, db'))"

text \<open>
  \<^verbatim>\<open>get_scheduled_task\<close>:
  \<^verbatim>\<open>return TaskSchedulerWorkerStore._convert_row_to_task(row) if row else None\<close>.
\<close>

definition get_scheduled_task ::
  "(string \<Rightarrow> error + 'j option) \<Rightarrow> table \<Rightarrow> string \<Rightarrow> error + 'j ScheduledTask option" where
  "get_scheduled_task loads db i =
     (case simple_select_one db i of
        None \<Rightarrow> Inr None
      | Some r \<Rightarrow> (case convert_row_to_task loads r of Inl e \<Rightarrow> Inl e | Inr t \<Rightarrow> Inr (Some t)))"

definition delete_scheduled_task :: "table \<Rightarrow> string \<Rightarrow> table" where
  "delete_scheduled_task db i = simple_delete db i"

subsection \<open>Notions used to state the properties\<close>

text \<open>
  A value survives the codec when \<open>loads\<close> gives it back from the text \<open>dumps\<close> made of it;
  an absent value has no text and survives.
\<close>

definition roundtrips ::
  "('j \<Rightarrow> string) \<Rightarrow> (string \<Rightarrow> error + 'j option) \<Rightarrow> 'j option \<Rightarrow> bool" where
  "roundtrips dumps loads x =
     (case x of None \<Rightarrow> True | Some v \<Rightarrow> loads (dumps v) = Inr (Some v))"

text \<open>A column holds malformed JSON when it holds a text that \<open>loads\<close> refuses.\<close>

definition malformed :: "(string \<Rightarrow> error + 'j option) \<Rightarrow> string option \<Rightarrow> bool" where
  "malformed loads c = (case c of None \<Rightarrow> False | Some s \<Rightarrow> isl (loads s))"

text \<open>
  The dictionary that \<^verbatim>\<open>update_scheduled_task\<close> has built when it calls
  \<^verbatim>\<open>simple_update\<close>, in one expression.
\<close>

definition update_dict ::
  "('j \<Rightarrow> string) \<Rightarrow> int option \<Rightarrow> TaskStatus option \<Rightarrow> 'j option \<Rightarrow> string option \<Rightarrow>
   updatevalues" where
  "update_dict dumps ts st res err =
     \<lparr>set_id = None, set_action = None, set_status = map_option status_value st,
      set_timestamp = ts, set_resource_id = None, set_params = None,
      set_result = map_option (\<lambda>v. Some (dumps v)) res, set_error = map_option Some err\<rparr>"

text \<open>A sequence of calls of \<^verbatim>\<open>update_scheduled_task\<close>, each with its arguments.\<close>

record 'j update_call =
  call_id :: string
  call_timestamp :: "int option"
  call_status :: "TaskStatus option"
  call_result :: "'j option"
  call_error :: "string option"

definition do_update :: "('j \<Rightarrow> string) \<Rightarrow> table \<Rightarrow> 'j update_call \<Rightarrow> table" where
  "do_update dumps db c =
     snd (update_scheduled_task dumps db (call_id c) (call_timestamp c) (call_status c)
            (call_result c) (call_error c))"

definition do_updates :: "('j \<Rightarrow> string) \<Rightarrow> table \<Rightarrow> 'j update_call list \<Rightarrow> table" where
  "do_updates dumps db cs = foldl (do_update dumps) db cs"

text \<open>
  The three states of a filter argument, in the words of the spec: absent, no constraint;
  empty, the column must be NULL; otherwise the column's value must be one of the given
  values.
\<close>

definition three_state :: "string list option \<Rightarrow> string option \<Rightarrow> bool" where
  "three_state arg c =
     (case arg of
        None \<Rightarrow> True
      | Some vs \<Rightarrow>
          if vs = [] then c = None else (case c of None \<Rightarrow> False | Some v \<Rightarrow> v \<in> set vs))"

text \<open>
  The three filters together, on the action, the resource id and the status text of a row
  or of a task.
\<close>

definition selected ::
  "string list option \<Rightarrow> string list option \<Rightarrow> TaskStatus list option \<Rightarrow>
   string \<Rightarrow> string option \<Rightarrow> string \<Rightarrow> bool" where
  "selected actions resource_ids statuses a r s =
     (three_state actions (Some a)
      \<and> three_state resource_ids r
      \<and> three_state (map_option (map status_value) statuses) (Some s))"

text \<open>
  A history of upserts and deletions, the table it leaves when it starts on the empty
  table, and the tasks that are stored after it: those upserted and not deleted since,
  by id.
\<close>

datatype 'j store_call = Upsert "'j ScheduledTask" | Delete string

fun do_call :: "('j \<Rightarrow> string) \<Rightarrow> table \<Rightarrow> 'j store_call \<Rightarrow> table" where
  "do_call dumps db (Upsert T) = upsert_scheduled_task dumps db T"
| "do_call dumps db (Delete i) = delete_scheduled_task db i"

definition table_after :: "('j \<Rightarrow> string) \<Rightarrow> 'j store_call list \<Rightarrow> table" where
  "table_after dumps cs = foldl (do_call dumps) [] cs"

fun stored_after ::
  "(string \<rightharpoonup> 'j ScheduledTask) \<Rightarrow> 'j store_call \<Rightarrow> (string \<rightharpoonup> 'j ScheduledTask)" where
  "stored_after m (Upsert T) = m(id' T \<mapsto> T)"
| "stored_after m (Delete i) = m(i := None)"

definition stored :: "'j store_call list \<Rightarrow> (string \<rightharpoonup> 'j ScheduledTask)" where
  "stored cs = foldl stored_after Map.empty cs"

fun call_roundtrips ::
  "('j \<Rightarrow> string) \<Rightarrow> (string \<Rightarrow> error + 'j option) \<Rightarrow> 'j store_call \<Rightarrow> bool" where
  "call_roundtrips dumps loads (Upsert T) =
     (roundtrips dumps loads (params T) \<and> roundtrips dumps loads (result T))"
| "call_roundtrips dumps loads (Delete i) = True"

text \<open>The table holds exactly the tasks of \<open>m\<close>, each under its id.\<close>

definition holds_tasks ::
  "(string \<Rightarrow> error + 'j option) \<Rightarrow> table \<Rightarrow> (string \<rightharpoonup> 'j ScheduledTask) \<Rightarrow> bool" where
  "holds_tasks loads db m =
     (primary_key db \<and>
      (\<forall>i. map_option (convert_row_to_task loads) (simple_select_one db i) = map_option Inr (m i)))"

subsection \<open>A codec to run the store on examples\<close>

text \<open>
  An instance of \<open>dumps\<close> and \<open>loads\<close> for one fragment of JSON: objects whose members are
  integers and whose names need no escape, written as \<^verbatim>\<open>json.dumps\<close> writes them
  (\<^verbatim>\<open>{"before": 500}\<close>), and the text \<^verbatim>\<open>null\<close>. It serves to evaluate the operations on
  concrete tasks; the properties below are proved for every codec.
\<close>

fun nat_digits :: "nat \<Rightarrow> string" where
  "nat_digits n =
     (if n < 10 then [''0123456789'' ! n]
      else nat_digits (n div 10) @ [''0123456789'' ! (n mod 10)])"

definition int_text :: "int \<Rightarrow> string" where
  "int_text i = (if i < 0 then CHR ''-'' # nat_digits (nat (- i)) else nat_digits (nat i))"

definition member_text :: "string \<times> int \<Rightarrow> string" where
  "member_text m = CHR 0x22 # fst m @ CHR 0x22 # '': '' @ int_text (snd m)"

fun join_members :: "string list \<Rightarrow> string" where
  "join_members [] = []"
| "join_members [m] = m"
| "join_members (m # ms) = m @ '', '' @ join_members ms"

definition object_dumps :: "(string \<times> int) list \<Rightarrow> string" where
  "object_dumps ms = ''{'' @ join_members (map member_text ms) @ ''}''"

definition is_ws :: "char \<Rightarrow> bool" where
  "is_ws c = (c = CHR '' '' \<or> c = CHR 0x09 \<or> c = CHR 0x0A \<or> c = CHR 0x0D)"

definition is_digit :: "char \<Rightarrow> bool" where
  "is_digit c = (c \<in> set ''0123456789'')"

definition digit_value :: "char \<Rightarrow> int" where
  "digit_value c = int (of_char c) - 48"

definition parse_int :: "string \<Rightarrow> (int \<times> string) option" where
  "parse_int s =
     (let neg = (s \<noteq> [] \<and> hd s = CHR ''-'');
          s1 = (if neg then tl s else s);
          ds = takeWhile is_digit s1
      in if ds = [] \<or> (length ds > 1 \<and> hd ds = CHR ''0'') then None
         else let n = foldl (\<lambda>a c. 10 * a + digit_value c) 0 ds
              in Some (if neg then - n else n, dropWhile is_digit s1))"

definition parse_member :: "string \<Rightarrow> ((string \<times> int) \<times> string) option" where
  "parse_member s =
     (case s of
        [] \<Rightarrow> None
      | c # cs \<Rightarrow>
          if c \<noteq> CHR 0x22 then None
          else let k = takeWhile (\<lambda>c. c \<noteq> CHR 0x22) cs;
                   r1 = dropWhile (\<lambda>c. c \<noteq> CHR 0x22) cs
               in if r1 = [] \<or> CHR 0x5C \<in> set k then None
                  else (case dropWhile is_ws (tl r1) of
                          [] \<Rightarrow> None
                        | d # r2 \<Rightarrow>
                            if d \<noteq> CHR '':'' then None
                            else (case parse_int (dropWhile is_ws r2) of
                                    None \<Rightarrow> None
                                  | Some (v, r3) \<Rightarrow> Some ((k, v), r3))))"

fun parse_members :: "nat \<Rightarrow> string \<Rightarrow> (string \<times> int) list option" where
  "parse_members 0 s = None"
| "parse_members (Suc n) s =
     (case parse_member s of
        None \<Rightarrow> None
      | Some (m, rest) \<Rightarrow>
          (case dropWhile is_ws rest of
             [] \<Rightarrow> Some [m]
           | c # rest' \<Rightarrow>
               if c \<noteq> CHR '','' then None
               else (case parse_members n (dropWhile is_ws rest') of
                       None \<Rightarrow> None
                     | Some ms \<Rightarrow> Some (m # ms))))"

definition strip :: "string \<Rightarrow> string" where
  "strip s = rev (dropWhile is_ws (rev (dropWhile is_ws s)))"

definition object_loads :: "string \<Rightarrow> error + (string \<times> int) list option" where
  "object_loads s =
     (let t = strip s
      in if t = ''null'' then Inr None
         else if length t < 2 \<or> hd t \<noteq> CHR ''{'' \<or> last t \<noteq> CHR ''}'' then Inl JSONDecodeError
         else let inner = strip (butlast (tl t))
              in if inner = [] then Inr (Some [])
                 else (case parse_members (length inner) inner of
                         None \<Rightarrow> Inl JSONDecodeError
                       | Some ms \<Rightarrow> Inr (Some ms)))"

text \<open>
  The task of the spec's example, a second task that has no resource id, parameters or
  error, and two rows that no upsert writes: one whose \<^verbatim>\<open>params\<close> is not JSON and one
  whose \<^verbatim>\<open>status\<close> is not the value of a member.
\<close>

definition task_t1 :: "(string \<times> int) list ScheduledTask" where
  "task_t1 = \<lparr>id' = ''t1'', action = ''purge_history'', status = SCHEDULED, timestamp = 1000,
     resource_id = Some ''room1'', params = Some [(''before'', 500)], result = None,
     error = None\<rparr>"

definition task_t2 :: "(string \<times> int) list ScheduledTask" where
  "task_t2 = \<lparr>id' = ''t2'', action = ''shutdown_room'', status = COMPLETE, timestamp = 2000,
     resource_id = None, params = None, result = Some [(''rows_deleted'', 42)],
     error = None\<rparr>"

definition row_t1 :: row where
  "row_t1 = \<lparr>id_col = ''t1'', action_col = ''purge_history'', status_col = ''scheduled'',
     timestamp_col = 1000, resource_id_col = Some ''room1'',
     params_col = Some (object_dumps [(''before'', 500)]), result_col = None, error_col = None\<rparr>"

definition row_t2 :: row where
  "row_t2 = \<lparr>id_col = ''t2'', action_col = ''shutdown_room'', status_col = ''complete'',
     timestamp_col = 2000, resource_id_col = None, params_col = None,
     result_col = Some (object_dumps [(''rows_deleted'', 42)]), error_col = None\<rparr>"

definition row_bad_json :: row where
  "row_bad_json = \<lparr>id_col = ''t3'', action_col = ''purge_history'', status_col = ''active'',
     timestamp_col = 3000, resource_id_col = None, params_col = Some ''{before: 500'',
     result_col = None, error_col = None\<rparr>"

definition row_bad_status :: row where
  "row_bad_status = \<lparr>id_col = ''t4'', action_col = ''purge_history'', status_col = ''paused'',
     timestamp_col = 4000, resource_id_col = None, params_col = None,
     result_col = None, error_col = None\<rparr>"

subsection \<open>JSON values and their text\<close>

text \<open>
  \<^verbatim>\<open>json.dumps\<close> and \<^verbatim>\<open>json.loads\<close> on the values that \<^verbatim>\<open>params\<close> and \<^verbatim>\<open>result\<close> carry:
  \<^verbatim>\<open>None\<close>, booleans, integers, strings, lists, and dictionaries with string keys. A
  dictionary is the list of its items in insertion order; in a Python dictionary every key
  occurs once (\<open>well_formed\<close>). A character is a code point below 256. Floats are left
  out: a number text with a fraction or an exponent has no value in this type and is
  refused, and so is an escape \<^verbatim>\<open>\uXXXX\<close> of a code point from 256 on.
\<close>

datatype json =
    JNull
  | JBool bool
  | JInt int
  | JString string
  | JArray "json list"
  | JObject "(string \<times> json) list"

fun well_formed :: "json \<Rightarrow> bool" where
  "well_formed (JArray vs) = list_all well_formed vs"
| "well_formed (JObject ms) = (distinct (map fst ms) \<and> list_all (\<lambda>m. well_formed (snd m)) ms)"
| "well_formed v = True"

text \<open>
  What a field \<^verbatim>\<open>params\<close> or \<^verbatim>\<open>result\<close> of a task can be: absent, or a value other than
  \<^verbatim>\<open>None\<close> (in Python the absent field is \<^verbatim>\<open>None\<close> itself).
\<close>

definition json_field :: "json option \<Rightarrow> bool" where
  "json_field x = (case x of None \<Rightarrow> True | Some v \<Rightarrow> v \<noteq> JNull \<and> well_formed v)"

text \<open>
  The text \<^verbatim>\<open>json.dumps\<close> writes with its default arguments: separators \<^verbatim>\<open>", "\<close> and
  \<^verbatim>\<open>": "\<close>, and \<^verbatim>\<open>ensure_ascii\<close>, which escapes the quote, the backslash and every
  character outside the printable ASCII range.
\<close>

definition hex_digit :: "nat \<Rightarrow> char" where
  "hex_digit d = (if d < 10 then char_of (48 + d) else char_of (87 + d))"

definition escape_char :: "char \<Rightarrow> string" where
  "escape_char c =
     (if c = CHR 0x22 then [CHR 0x5C, CHR 0x22]
      else if c = CHR 0x5C then [CHR 0x5C, CHR 0x5C]
      else if c = CHR 0x08 then [CHR 0x5C, CHR ''b'']
      else if c = CHR 0x0C then [CHR 0x5C, CHR ''f'']
      else if c = CHR 0x0A then [CHR 0x5C, CHR ''n'']
      else if c = CHR 0x0D then [CHR 0x5C, CHR ''r'']
      else if c = CHR 0x09 then [CHR 0x5C, CHR ''t'']
      else if (of_char c :: nat) < 32 \<or> 126 < (of_char c :: nat)
        then [CHR 0x5C, CHR ''u'', CHR ''0'', CHR ''0'',
              hex_digit (of_char c div 16), hex_digit (of_char c mod 16)]
      else [c])"

definition string_text :: "string \<Rightarrow> string" where
  "string_text s = CHR 0x22 # concat (map escape_char s) @ [CHR 0x22]"

fun json_text :: "json \<Rightarrow> string"
  and elements_text :: "json list \<Rightarrow> string"
  and members_text :: "(string \<times> json) list \<Rightarrow> string" where
  "json_text JNull = ''null''"
| "json_text (JBool b) = (if b then ''true'' else ''false'')"
| "json_text (JInt i) = int_text i"
| "json_text (JString s) = string_text s"
| "json_text (JArray vs) = (if vs = [] then ''[]'' else CHR ''['' # elements_text vs)"
| "json_text (JObject ms) = (if ms = [] then ''{}'' else CHR ''{'' # members_text ms)"
| "elements_text [] = '']''"
| "elements_text (v # vs) =
     json_text v @ (if vs = [] then '']'' else '', '' @ elements_text vs)"
| "members_text [] = ''}''"
| "members_text ((k, v) # ms) =
     string_text k @ '': '' @ json_text v @ (if ms = [] then ''}'' else '', '' @ members_text ms)"

definition json_dumps :: "json \<Rightarrow> string" where
  "json_dumps v = json_text v"

text \<open>
  The reading of a text, as \<^verbatim>\<open>json.loads\<close> does it: a value, with white space allowed
  around it and around the separators. The parser descends into lists and dictionaries;
  its first argument bounds the depth of that descent, and \<open>json_loads\<close> gives it the
  length of the text. A key that occurs again in a dictionary replaces the value of its
  first occurrence. A text that is not a value makes \<^verbatim>\<open>json.loads\<close> raise; the text
  \<^verbatim>\<open>null\<close> makes it return \<^verbatim>\<open>None\<close>.
\<close>

definition hex_value :: "char \<Rightarrow> nat option" where
  "hex_value c =
     (let n = of_char c :: nat
      in if 48 \<le> n \<and> n \<le> 57 then Some (n - 48)
         else if 97 \<le> n \<and> n \<le> 102 then Some (n - 87)
         else if 65 \<le> n \<and> n \<le> 70 then Some (n - 55)
         else None)"

definition unescape :: "char \<Rightarrow> char option" where
  "unescape e =
     (if e = CHR 0x22 then Some (CHR 0x22)
      else if e = CHR 0x5C then Some (CHR 0x5C)
      else if e = CHR ''/'' then Some (CHR ''/'')
      else if e = CHR ''b'' then Some (CHR 0x08)
      else if e = CHR ''f'' then Some (CHR 0x0C)
      else if e = CHR ''n'' then Some (CHR 0x0A)
      else if e = CHR ''r'' then Some (CHR 0x0D)
      else if e = CHR ''t'' then Some (CHR 0x09)
      else None)"

definition unicode_escape :: "char \<Rightarrow> char \<Rightarrow> char \<Rightarrow> char \<Rightarrow> char option" where
  "unicode_escape a b c d =
     (case (hex_value a, hex_value b, hex_value c, hex_value d) of
        (Some w, Some x, Some y, Some z) \<Rightarrow>
          if w = 0 \<and> x = 0 then Some (char_of (16 * y + z)) else None
      | _ \<Rightarrow> None)"

fun parse_chars :: "string \<Rightarrow> (string \<times> string) option" where
  "parse_chars [] = None"
| "parse_chars (c # cs) =
     (if c = CHR 0x22 then Some ([], cs)
      else if c = CHR 0x5C then
        (case cs of
           [] \<Rightarrow> None
         | e # r \<Rightarrow>
             if e = CHR ''u'' then
               (case r of
                  a # b # x # y # r' \<Rightarrow>
                    (case unicode_escape a b x y of
                       None \<Rightarrow> None
                     | Some d \<Rightarrow>
                         (case parse_chars r' of
                            None \<Rightarrow> None
                          | Some (s, rest) \<Rightarrow> Some (d # s, rest)))
                | _ \<Rightarrow> None)
             else
               (case unescape e of
                  None \<Rightarrow> None
                | Some d \<Rightarrow>
                    (case parse_chars r of
                       None \<Rightarrow> None
                     | Some (s, rest) \<Rightarrow> Some (d # s, rest))))
      else if (of_char c :: nat) < 32 then None
      else (case parse_chars cs of
              None \<Rightarrow> None
            | Some (s, rest) \<Rightarrow> Some (c # s, rest)))"

fun dict_insert :: "(string \<times> json) list \<Rightarrow> string \<times> json \<Rightarrow> (string \<times> json) list" where
  "dict_insert [] m = [m]"
| "dict_insert (p # ps) m = (if fst p = fst m then (fst p, snd m) # ps else p # dict_insert ps m)"

definition dict_of :: "(string \<times> json) list \<Rightarrow> (string \<times> json) list" where
  "dict_of ms = foldl dict_insert [] ms"

fun json_parse_value :: "nat \<Rightarrow> string \<Rightarrow> (json \<times> string) option"
  and json_parse_elements :: "nat \<Rightarrow> string \<Rightarrow> (json list \<times> string) option"
  and json_parse_members :: "nat \<Rightarrow> string \<Rightarrow> ((string \<times> json) list \<times> string) option" where
  "json_parse_value 0 s = None"
| "json_parse_value (Suc n) s =
     (case s of
        [] \<Rightarrow> None
      | c # cs \<Rightarrow>
          if c = CHR 0x22 then
            (case parse_chars cs of None \<Rightarrow> None | Some (t, rest) \<Rightarrow> Some (JString t, rest))
          else if c = CHR ''['' then
            (if dropWhile is_ws cs \<noteq> [] \<and> hd (dropWhile is_ws cs) = CHR '']''
             then Some (JArray [], tl (dropWhile is_ws cs))
             else (case json_parse_elements n (dropWhile is_ws cs) of
                     None \<Rightarrow> None
                   | Some (vs, rest) \<Rightarrow> Some (JArray vs, rest)))
          else if c = CHR ''{'' then
            (if dropWhile is_ws cs \<noteq> [] \<and> hd (dropWhile is_ws cs) = CHR ''}''
             then Some (JObject [], tl (dropWhile is_ws cs))
             else (case json_parse_members n (dropWhile is_ws cs) of
                     None \<Rightarrow> None
                   | Some (ms, rest) \<Rightarrow> Some (JObject (dict_of ms), rest)))
          else if take 4 s = ''null'' then Some (JNull, drop 4 s)
          else if take 4 s = ''true'' then Some (JBool True, drop 4 s)
          else if take 5 s = ''false'' then Some (JBool False, drop 5 s)
          else (case parse_int s of None \<Rightarrow> None | Some (i, rest) \<Rightarrow> Some (JInt i, rest)))"
| "json_parse_elements 0 s = None"
| "json_parse_elements (Suc n) s =
     (case json_parse_value n s of
        None \<Rightarrow> None
      | Some (v, r) \<Rightarrow>
          (case dropWhile is_ws r of
             [] \<Rightarrow> None
           | c # r' \<Rightarrow>
               if c = CHR '']'' then Some ([v], r')
               else if c = CHR '','' then
                 (case json_parse_elements n (dropWhile is_ws r') of
                    None \<Rightarrow> None
                  | Some (vs, rest) \<Rightarrow> Some (v # vs, rest))
               else None))"
| "json_parse_members 0 s = None"
| "json_parse_members (Suc n) s =
     (case s of
        [] \<Rightarrow> None
      | q # cs \<Rightarrow>
          if q \<noteq> CHR 0x22 then None
          else (case parse_chars cs of
                  None \<Rightarrow> None
                | Some (k, r0) \<Rightarrow>
                    (case dropWhile is_ws r0 of
                       [] \<Rightarrow> None
                     | d # r1 \<Rightarrow>
                         if d \<noteq> CHR '':'' then None
                         else (case json_parse_value n (dropWhile is_ws r1) of
                                 None \<Rightarrow> None
                               | Some (v, r2) \<Rightarrow>
                                   (case dropWhile is_ws r2 of
                                      [] \<Rightarrow> None
                                    | c # r3 \<Rightarrow>
                                        if c = CHR ''}'' then Some ([(k, v)], r3)
                                        else if c = CHR '','' then
                                          (case json_parse_members n (dropWhile is_ws r3) of
                                             None \<Rightarrow> None
                                           | Some (ms, rest) \<Rightarrow> Some ((k, v) # ms, rest))
                                        else None)))))"

definition json_loads :: "string \<Rightarrow> error + json option" where
  "json_loads s =
     (let t = dropWhile is_ws s
      in case json_parse_value (length t) t of
           None \<Rightarrow> Inl JSONDecodeError
         | Some (v, rest) \<Rightarrow>
             if dropWhile is_ws rest \<noteq> [] then Inl JSONDecodeError
             else if v = JNull then Inr None
             else Inr (Some v))"

text \<open>
  Two notions for the proofs about the parser: a text that starts with the first character
  of a value, and a text that cannot continue a number.
\<close>

definition value_start :: "string \<Rightarrow> bool" where
  "value_start s = (s \<noteq> [] \<and> \<not> is_ws (hd s) \<and> hd s \<noteq> CHR '']'' \<and> hd s \<noteq> CHR ''}'')"

definition number_end :: "string \<Rightarrow> bool" where
  "number_end s = (s = [] \<or> \<not> is_digit (hd s))"

text \<open>A task whose parameters use every kind of value, and a task with a result.\<close>

definition task_j1 :: "json ScheduledTask" where
  "task_j1 = \<lparr>id' = ''t1'', action = ''purge_history'', status = SCHEDULED, timestamp = 1000,
     resource_id = Some ''room1'',
     params = Some (JObject [(''before'', JInt 500), (''delta'', JInt (- 42)),
                (''rooms'', JArray [JString [CHR ''a'', CHR 0x22, CHR ''b'', CHR 0x0A, CHR 0xE9],
                                    JNull, JBool True, JArray []]),
                (''opts'', JObject [(''deep'', JObject [])])]),
     result = None, error = None\<rparr>"

definition task_j2 :: "json ScheduledTask" where
  "task_j2 = \<lparr>id' = ''t2'', action = ''shutdown_room'', status = COMPLETE, timestamp = 2000,
     resource_id = None, params = Some (JObject []),
     result = Some (JObject [(''rows_deleted'', JInt 42)]), error = None\<rparr>"

section \<open>Properties\<close>

subsection \<open>The status enum and the conversion of a row\<close>

lemma TaskStatus_of_status_value: "TaskStatus_of (status_value s) = Inr s"
  by (cases s) (simp_all add: TaskStatus_of_def)

lemma TaskStatus_of_Inr: "TaskStatus_of s = Inr st \<Longrightarrow> status_value st = s"
  by (auto simp: TaskStatus_of_def split: if_splits)

lemma status_value_cases:
  "status_value s \<in> {''scheduled'', ''active'', ''complete'', ''failed''}"
  by (cases s) simp_all

lemma convert_id: "convert_row_to_task loads r = Inr t \<Longrightarrow> id' t = id_col r"
  by (auto simp: convert_row_to_task_def split: sum.splits)

lemma convert_action: "convert_row_to_task loads r = Inr t \<Longrightarrow> action t = action_col r"
  by (auto simp: convert_row_to_task_def split: sum.splits)

lemma convert_resource_id:
  "convert_row_to_task loads r = Inr t \<Longrightarrow> resource_id t = resource_id_col r"
  by (auto simp: convert_row_to_task_def split: sum.splits)

lemma convert_status:
  "convert_row_to_task loads r = Inr t \<Longrightarrow> status_col r = status_value (status t)"
  by (auto simp: convert_row_to_task_def split: sum.splits dest: TaskStatus_of_Inr)

lemma convert_bad_status:
  "status_col r \<notin> {''scheduled'', ''active'', ''complete'', ''failed''} \<Longrightarrow>
     convert_row_to_task loads r = Inl ValueError"
  by (simp add: convert_row_to_task_def TaskStatus_of_def)

lemma convert_malformed:
  "malformed loads (params_col r) \<or> malformed loads (result_col r) \<Longrightarrow>
     isl (convert_row_to_task loads r)"
  by (auto simp: malformed_def convert_row_to_task_def split: option.splits sum.splits)

lemma convert_rows_Inr:
  "convert_rows loads rs = Inr ts \<Longrightarrow>
     list_all2 (\<lambda>r t. convert_row_to_task loads r = Inr t) rs ts"
  by (induction rs arbitrary: ts) (auto split: sum.splits)

lemma convert_rows_all:
  "list_all2 (\<lambda>r t. convert_row_to_task loads r = Inr t) rs ts \<Longrightarrow>
     convert_rows loads rs = Inr ts"
  by (induction rs ts rule: list_all2_induct) auto

lemma convert_rows_Inl:
  "r \<in> set rs \<Longrightarrow> isl (convert_row_to_task loads r) \<Longrightarrow> isl (convert_rows loads rs)"
  by (induction rs) (auto split: sum.splits)

lemma list_all2_right_member:
  "list_all2 P xs ys \<Longrightarrow> y \<in> set ys \<Longrightarrow> \<exists>x \<in> set xs. P x y"
  by (induction xs ys rule: list_all2_induct) auto

lemma list_all2_filter:
  "list_all2 C xs ys \<Longrightarrow> (\<And>x y. C x y \<Longrightarrow> P x = Q y) \<Longrightarrow>
     list_all2 C (filter P xs) (filter Q ys)"
  by (induction xs ys rule: list_all2_induct) auto

subsection \<open>The primitives of the database layer\<close>

lemma select_Some: "simple_select_one db i = Some r \<Longrightarrow> r \<in> set db \<and> id_col r = i"
  by (auto simp: simple_select_one_def find_Some_iff)

lemma select_unique:
  "primary_key db \<Longrightarrow> r \<in> set db \<Longrightarrow> simple_select_one db (id_col r) = Some r"
  unfolding primary_key_def simple_select_one_def
  by (induction db) auto

lemma select_map:
  "(\<And>r. id_col (f r) = id_col r) \<Longrightarrow>
     simple_select_one (map f db) i = map_option f (simple_select_one db i)"
  unfolding simple_select_one_def by (induction db) auto

lemma select_upsert:
  "simple_select_one (simple_upsert db k v) j =
     (if j = k then Some (v\<lparr>id_col := k\<rparr>) else simple_select_one db j)"
proof -
  let ?f = "\<lambda>r. if id_col r = k then v\<lparr>id_col := k\<rparr> else r"
  have hit: "k \<in> set (map id_col xs) \<Longrightarrow>
        find (\<lambda>r. id_col r = k) (map ?f xs) = Some (v\<lparr>id_col := k\<rparr>)" for xs
    by (induction xs) auto
  have new: "k \<notin> set (map id_col xs) \<Longrightarrow>
        find (\<lambda>r. id_col r = k) (xs @ [v\<lparr>id_col := k\<rparr>]) = Some (v\<lparr>id_col := k\<rparr>)" for xs
    by (induction xs) auto
  have other1: "j \<noteq> k \<Longrightarrow>
        find (\<lambda>r. id_col r = j) (map ?f xs) = find (\<lambda>r. id_col r = j) xs" for xs
    by (induction xs) auto
  have other2: "j \<noteq> k \<Longrightarrow>
        find (\<lambda>r. id_col r = j) (xs @ [v\<lparr>id_col := k\<rparr>]) = find (\<lambda>r. id_col r = j) xs" for xs
    by (induction xs) auto
  show ?thesis
    unfolding simple_select_one_def simple_upsert_def
    using hit new other1 other2 by simp
qed

lemma ids_upsert:
  "map id_col (simple_upsert db k v) =
     (if k \<in> set (map id_col db) then map id_col db else map id_col db @ [k])"
proof -
  have "map id_col (map (\<lambda>r. if id_col r = k then v\<lparr>id_col := k\<rparr> else r) xs) = map id_col xs"
    for xs
    by (induction xs) auto
  then show ?thesis by (simp add: simple_upsert_def)
qed

lemma primary_key_upsert: "primary_key db \<Longrightarrow> primary_key (simple_upsert db k v)"
  by (simp add: primary_key_def ids_upsert)

lemma upsert_upsert: "simple_upsert (simple_upsert db k v) k v = simple_upsert db k v"
proof -
  let ?f = "\<lambda>r. if id_col r = k then v\<lparr>id_col := k\<rparr> else r"
  have in_ids: "k \<in> set (map id_col (simple_upsert db k v))"
    by (simp add: ids_upsert)
  have same: "k \<notin> set (map id_col xs) \<Longrightarrow> map ?f xs = xs" for xs
    by (induction xs) auto
  have "map ?f (simple_upsert db k v) = simple_upsert db k v"
    by (auto simp: simple_upsert_def same)
  with in_ids show ?thesis
    by (subst simple_upsert_def) simp
qed

lemma select_delete:
  "simple_select_one (simple_delete db i) j = (if j = i then None else simple_select_one db j)"
proof -
  have "find (\<lambda>r. id_col r = j) (filter (\<lambda>r. id_col r \<noteq> i) xs) =
      (if j = i then None else find (\<lambda>r. id_col r = j) xs)" for xs
    by (induction xs) auto
  then show ?thesis
    unfolding simple_select_one_def simple_delete_def .
qed

lemma primary_key_delete: "primary_key db \<Longrightarrow> primary_key (simple_delete db i)"
  by (simp add: primary_key_def simple_delete_def distinct_map_filter)

lemma delete_absent: "i \<notin> set (map id_col db) \<Longrightarrow> simple_delete db i = db"
  unfolding simple_delete_def by (induction db) auto

lemma map_no_target:
  "i \<notin> set (map id_col db) \<Longrightarrow> map (\<lambda>r. if id_col r = i then f r else r) db = db"
  by (induction db) auto

subsection \<open>The operations in closed form\<close>

lemma select_upsert_task:
  "simple_select_one (upsert_scheduled_task dumps db T) j =
     (if j = id' T
      then Some \<lparr>id_col = id' T, action_col = action T, status_col = status_value (status T),
                 timestamp_col = timestamp T, resource_id_col = resource_id T,
                 params_col = map_option dumps (params T),
                 result_col = map_option dumps (result T), error_col = error T\<rparr>
      else simple_select_one db j)"
  by (simp add: upsert_scheduled_task_def select_upsert map_option_case)

lemma convert_written_row:
  assumes "roundtrips dumps loads (params T)" and "roundtrips dumps loads (result T)"
  shows "convert_row_to_task loads
     \<lparr>id_col = id' T, action_col = action T, status_col = status_value (status T),
      timestamp_col = timestamp T, resource_id_col = resource_id T,
      params_col = map_option dumps (params T),
      result_col = map_option dumps (result T), error_col = error T\<rparr> = Inr T"
  using assms
  by (auto simp: convert_row_to_task_def TaskStatus_of_status_value roundtrips_def
      split: option.splits)

lemma update_scheduled_task_eq:
  "update_scheduled_task dumps db i ts st res err =
     (0 < snd (simple_update db i (update_dict dumps ts st res err)),
      fst (simple_update db i (update_dict dumps ts st res err)))"
  by (cases ts; cases st; cases res; cases err)
     (simp_all add: update_scheduled_task_def update_dict_def empty_dict_def Let_def split_beta)

lemma update_table:
  "snd (update_scheduled_task dumps db i ts st res err) =
     map (\<lambda>r. if id_col r = i then assign (update_dict dumps ts st res err) r else r) db"
  by (simp add: update_scheduled_task_eq simple_update_def)

lemma assign_update_dict_id: "id_col (assign (update_dict dumps ts st res err) r) = id_col r"
  by (simp add: assign_def update_dict_def)

lemma assign_update_dict_result:
  "result_col (assign (update_dict dumps ts st res err) r) =
     (case res of None \<Rightarrow> result_col r | Some v \<Rightarrow> Some (dumps v))"
  by (cases res) (simp_all add: assign_def update_dict_def)

lemma assign_update_dict_error:
  "error_col (assign (update_dict dumps ts st res err) r) =
     (case err of None \<Rightarrow> error_col r | Some e \<Rightarrow> Some e)"
  by (cases err) (simp_all add: assign_def update_dict_def)

lemma convert_assign:
  assumes "convert_row_to_task loads r = Inr t" and "roundtrips dumps loads res"
  shows "convert_row_to_task loads (assign (update_dict dumps ts st res err) r) =
     Inr (t\<lparr>timestamp := (case ts of None \<Rightarrow> timestamp t | Some v \<Rightarrow> v),
            status := (case st of None \<Rightarrow> status t | Some s \<Rightarrow> s),
            result := (case res of None \<Rightarrow> result t | Some v \<Rightarrow> Some v),
            error := (case err of None \<Rightarrow> error t | Some e \<Rightarrow> Some e)\<rparr>)"
  using assms
  by (cases ts; cases st; cases res; cases err)
     (auto simp: convert_row_to_task_def assign_def update_dict_def roundtrips_def
        TaskStatus_of_status_value split: sum.splits option.splits)

lemma get_Some:
  "get_scheduled_task loads db i = Inr (Some t) \<longleftrightarrow>
     (\<exists>r. simple_select_one db i = Some r \<and> convert_row_to_task loads r = Inr t)"
  by (auto simp: get_scheduled_task_def split: option.splits sum.splits)

lemma select_update:
  "simple_select_one (snd (update_scheduled_task dumps db i ts st res err)) j =
     (if j = i then map_option (assign (update_dict dumps ts st res err)) (simple_select_one db i)
      else simple_select_one db j)"
proof -
  let ?f = "\<lambda>r. if id_col r = i then assign (update_dict dumps ts st res err) r else r"
  have "simple_select_one (map ?f db) j = map_option ?f (simple_select_one db j)"
    by (rule select_map) (simp add: assign_update_dict_id)
  moreover have "map_option ?f (simple_select_one db j) =
     (if j = i then map_option (assign (update_dict dumps ts st res err)) (simple_select_one db i)
      else simple_select_one db j)"
    by (cases "simple_select_one db j") (auto dest: select_Some)
  ultimately show ?thesis by (simp add: update_table)
qed

lemma get_update:
  assumes "get_scheduled_task loads db i = Inr (Some t)" and "roundtrips dumps loads res"
  shows "get_scheduled_task loads (snd (update_scheduled_task dumps db i ts st res err)) i =
     Inr (Some (t\<lparr>timestamp := (case ts of None \<Rightarrow> timestamp t | Some v \<Rightarrow> v),
            status := (case st of None \<Rightarrow> status t | Some s \<Rightarrow> s),
            result := (case res of None \<Rightarrow> result t | Some v \<Rightarrow> Some v),
            error := (case err of None \<Rightarrow> error t | Some e \<Rightarrow> Some e)\<rparr>))"
proof -
  from assms(1) obtain r where r: "simple_select_one db i = Some r"
    and c: "convert_row_to_task loads r = Inr t"
    by (auto simp: get_Some)
  show ?thesis
    unfolding get_Some by (simp add: select_update r convert_assign [OF c assms(2)])
qed

lemma get_update_other:
  "j \<noteq> i \<Longrightarrow>
     get_scheduled_task loads (snd (update_scheduled_task dumps db i ts st res err)) j =
     get_scheduled_task loads db j"
  by (simp add: get_scheduled_task_def select_update)

lemma holds_make_text:
  "column_value r c = nullable x \<Longrightarrow>
     holds (make_in_list_sql_clause c (map Text vs)) r = three_state (Some vs) x"
  by (cases x) (auto simp: make_in_list_sql_clause_def three_state_def)

lemma txn_selected:
  "get_scheduled_tasks_txn actions resource_ids statuses db =
     filter (\<lambda>r. selected actions resource_ids statuses
                   (action_col r) (resource_id_col r) (status_col r)) db"
proof -
  have a: "holds (make_in_list_sql_clause Action (map Text vs)) r
      = three_state (Some vs) (Some (action_col r))" for vs r
    by (rule holds_make_text) simp
  have b: "holds (make_in_list_sql_clause Resource_id (map Text vs)) r
      = three_state (Some vs) (resource_id_col r)" for vs r
    by (rule holds_make_text) simp
  have c: "holds (make_in_list_sql_clause Status (map (\<lambda>s. Text (status_value s)) vs)) r
      = three_state (Some (map status_value vs)) (Some (status_col r))" for vs r
    using holds_make_text [of r Status "Some (status_col r)" "map status_value vs"]
    by (simp add: o_def)
  have n: "three_state None x" for x
    by (simp add: three_state_def)
  show ?thesis
    by (cases actions; cases resource_ids; cases statuses)
       (simp_all add: get_scheduled_tasks_txn_def selected_def a b c n)
qed

lemma txn_subset: "set (get_scheduled_tasks_txn actions resource_ids statuses db) \<subseteq> set db"
  by (simp add: txn_selected)

subsection \<open>Histories of upserts and deletions\<close>

lemma holds_tasks_call:
  assumes "holds_tasks loads db m" and "call_roundtrips dumps loads c"
  shows "holds_tasks loads (do_call dumps db c) (stored_after m c)"
proof (cases c)
  case (Upsert T)
  have "primary_key (upsert_scheduled_task dumps db T)"
    using assms(1) by (simp add: holds_tasks_def upsert_scheduled_task_def primary_key_upsert)
  moreover have "map_option (convert_row_to_task loads)
       (simple_select_one (upsert_scheduled_task dumps db T) i) =
       map_option Inr ((m(id' T \<mapsto> T)) i)" for i
    using assms Upsert
    by (simp add: select_upsert_task convert_written_row holds_tasks_def)
  ultimately show ?thesis
    using Upsert by (simp add: holds_tasks_def)
next
  case (Delete i)
  with assms(1) show ?thesis
    by (simp add: holds_tasks_def delete_scheduled_task_def primary_key_delete select_delete)
qed

lemma holds_tasks_calls:
  "holds_tasks loads db m \<Longrightarrow> list_all (call_roundtrips dumps loads) cs \<Longrightarrow>
     holds_tasks loads (foldl (do_call dumps) db cs) (foldl stored_after m cs)"
  by (induction cs arbitrary: db m) (simp_all add: holds_tasks_call)

lemma holds_tasks_history:
  "list_all (call_roundtrips dumps loads) cs \<Longrightarrow>
     holds_tasks loads (table_after dumps cs) (stored cs)"
  unfolding table_after_def stored_def
  by (rule holds_tasks_calls)
     (simp_all add: holds_tasks_def primary_key_def simple_select_one_def)

lemma holds_tasks_list:
  assumes "holds_tasks loads db m"
  shows "\<exists>ts. convert_rows loads db = Inr ts \<and> distinct (map id' ts) \<and> set ts = ran m"
proof -
  from assms have pk: "primary_key db"
    and inv: "\<And>i. map_option (convert_row_to_task loads) (simple_select_one db i)
                  = map_option Inr (m i)"
    by (simp_all add: holds_tasks_def)
  have conv: "\<exists>t. m (id_col r) = Some t \<and> convert_row_to_task loads r = Inr t"
    if "r \<in> set db" for r
    using inv [of "id_col r"] select_unique [OF pk that] by (cases "m (id_col r)") auto
  define ts where "ts = map (\<lambda>r. the (m (id_col r))) db"
  have "list_all2 (\<lambda>r t. convert_row_to_task loads r = Inr t) db ts"
    unfolding ts_def list_all2_map2 list_all2_same using conv by force
  then have c: "convert_rows loads db = Inr ts"
    by (rule convert_rows_all)
  have ids: "map id' ts = map id_col db"
    unfolding ts_def using conv by (force simp: convert_id)
  have "set ts = ran m"
  proof
    show "set ts \<subseteq> ran m"
      unfolding ts_def using conv by (force simp: ran_def)
  next
    show "ran m \<subseteq> set ts"
    proof
      fix t assume "t \<in> ran m"
      then obtain i where i: "m i = Some t" by (auto simp: ran_def)
      with inv [of i] obtain r where r: "simple_select_one db i = Some r"
        by (cases "simple_select_one db i") auto
      then have "r \<in> set db" "id_col r = i" by (simp_all add: select_Some)
      with i show "t \<in> set ts" unfolding ts_def by force
    qed
  qed
  with c ids pk show ?thesis by (auto simp: primary_key_def)
qed

lemma holds_tasks_filtered:
  assumes "holds_tasks loads db m"
  shows "\<exists>ts. get_scheduled_tasks loads db actions resource_ids statuses = Inr ts
     \<and> distinct (map id' ts)
     \<and> set ts = {t \<in> ran m. selected actions resource_ids statuses
                                (action t) (resource_id t) (status_value (status t))}"
proof -
  let ?P = "\<lambda>r. selected actions resource_ids statuses
                   (action_col r) (resource_id_col r) (status_col r)"
  let ?Q = "\<lambda>t. selected actions resource_ids statuses
                   (action t) (resource_id t) (status_value (status t))"
  from holds_tasks_list [OF assms] obtain ts
    where c: "convert_rows loads db = Inr ts" and d: "distinct (map id' ts)"
      and s: "set ts = ran m"
    by blast
  from c have "list_all2 (\<lambda>r t. convert_row_to_task loads r = Inr t) db ts"
    by (rule convert_rows_Inr)
  then have "list_all2 (\<lambda>r t. convert_row_to_task loads r = Inr t) (filter ?P db) (filter ?Q ts)"
    by (rule list_all2_filter) (simp add: convert_action convert_resource_id convert_status)
  then have "get_scheduled_tasks loads db actions resource_ids statuses = Inr (filter ?Q ts)"
    by (simp add: get_scheduled_tasks_def txn_selected convert_rows_all)
  moreover have "distinct (map id' (filter ?Q ts))"
    using d by (rule distinct_map_filter)
  moreover have "set (filter ?Q ts) = {t \<in> ran m. ?Q t}"
    using s by auto
  ultimately show ?thesis by blast
qed

subsection \<open>Sequences of updates\<close>

lemma do_update_keeps:
  assumes "simple_select_one db i = Some r"
  shows "\<exists>r'. simple_select_one (do_update dumps db c) i = Some r'
     \<and> (result_col r \<noteq> None \<longrightarrow> result_col r' \<noteq> None)
     \<and> (error_col r \<noteq> None \<longrightarrow> error_col r' \<noteq> None)"
proof -
  let ?f = "\<lambda>r. if id_col r = call_id c
     then assign (update_dict dumps (call_timestamp c) (call_status c)
                    (call_result c) (call_error c)) r
     else r"
  have "simple_select_one (do_update dumps db c) i = map_option ?f (simple_select_one db i)"
    unfolding do_update_def update_table
    by (rule select_map) (simp add: assign_update_dict_id)
  with assms have sel: "simple_select_one (do_update dumps db c) i = Some (?f r)"
    by simp
  have "result_col r \<noteq> None \<longrightarrow> result_col (?f r) \<noteq> None"
    by (simp add: assign_update_dict_result split: option.splits)
  moreover have "error_col r \<noteq> None \<longrightarrow> error_col (?f r) \<noteq> None"
    by (simp add: assign_update_dict_error split: option.splits)
  ultimately show ?thesis
    using sel by blast
qed

lemma do_updates_keep:
  "simple_select_one db i = Some r \<Longrightarrow>
     \<exists>r'. simple_select_one (do_updates dumps db cs) i = Some r'
       \<and> (result_col r \<noteq> None \<longrightarrow> result_col r' \<noteq> None)
       \<and> (error_col r \<noteq> None \<longrightarrow> error_col r' \<noteq> None)"
proof (induction cs arbitrary: db r)
  case Nil
  then show ?case by (simp add: do_updates_def)
next
  case (Cons c cs)
  from do_update_keeps [OF Cons.prems, of dumps c]
  obtain r1 where r1: "simple_select_one (do_update dumps db c) i = Some r1"
    and k1: "result_col r \<noteq> None \<longrightarrow> result_col r1 \<noteq> None"
      "error_col r \<noteq> None \<longrightarrow> error_col r1 \<noteq> None"
    by blast
  from Cons.IH [OF r1]
  obtain r' where "simple_select_one (do_updates dumps (do_update dumps db c) cs) i = Some r'"
    and "result_col r1 \<noteq> None \<longrightarrow> result_col r' \<noteq> None"
      "error_col r1 \<noteq> None \<longrightarrow> error_col r' \<noteq> None"
    by blast
  with k1 show ?case by (auto simp: do_updates_def)
qed

lemma do_update_get:
  assumes "get_scheduled_task loads db i = Inr (Some t)"
    and "roundtrips dumps loads (call_result c)"
  shows "\<exists>t'. get_scheduled_task loads (do_update dumps db c) i = Inr (Some t')
     \<and> (result t \<noteq> None \<longrightarrow> result t' \<noteq> None)
     \<and> (error t \<noteq> None \<longrightarrow> error t' \<noteq> None)"
proof (cases "call_id c = i")
  case True
  from get_update [OF assms, where ts = "call_timestamp c" and st = "call_status c"
      and err = "call_error c"] True
  show ?thesis
    by (auto simp: do_update_def split: option.splits)
next
  case False
  then have "get_scheduled_task loads (do_update dumps db c) i = get_scheduled_task loads db i"
    unfolding do_update_def by (intro get_update_other) simp
  with assms(1) show ?thesis by simp
qed

lemma do_updates_get:
  "get_scheduled_task loads db i = Inr (Some t) \<Longrightarrow>
   list_all (\<lambda>c. roundtrips dumps loads (call_result c)) cs \<Longrightarrow>
     \<exists>t'. get_scheduled_task loads (do_updates dumps db cs) i = Inr (Some t')
       \<and> (result t \<noteq> None \<longrightarrow> result t' \<noteq> None)
       \<and> (error t \<noteq> None \<longrightarrow> error t' \<noteq> None)"
proof (induction cs arbitrary: db t)
  case Nil
  then show ?case by (simp add: do_updates_def)
next
  case (Cons c cs)
  from Cons.prems have rc: "roundtrips dumps loads (call_result c)"
    and rcs: "list_all (\<lambda>c. roundtrips dumps loads (call_result c)) cs"
    by simp_all
  from do_update_get [OF Cons.prems(1) rc]
  obtain t1 where t1: "get_scheduled_task loads (do_update dumps db c) i = Inr (Some t1)"
    and k1: "result t \<noteq> None \<longrightarrow> result t1 \<noteq> None"
      "error t \<noteq> None \<longrightarrow> error t1 \<noteq> None"
    by blast
  from Cons.IH [OF t1 rcs]
  obtain t' where "get_scheduled_task loads (do_updates dumps (do_update dumps db c) cs) i
        = Inr (Some t')"
    and "result t1 \<noteq> None \<longrightarrow> result t' \<noteq> None"
      "error t1 \<noteq> None \<longrightarrow> error t' \<noteq> None"
    by blast
  with k1 show ?case by (auto simp: do_updates_def)
qed

subsection \<open>The worked example of the spec\<close>

text \<open>
  Upsert the task \<^verbatim>\<open>t1\<close>, read it back, set it active at 1005, then complete it with a
  result: each get returns the task with the fields changed so far, and \<^verbatim>\<open>params\<close> and
  \<^verbatim>\<open>error\<close> as they were.
\<close>

lemma spec_example:
  "(let db0 = upsert_scheduled_task object_dumps [] task_t1;
        (b1, db1) = update_scheduled_task object_dumps db0 ''t1'' (Some 1005) (Some ACTIVE)
                      None None;
        (b2, db2) = update_scheduled_task object_dumps db1 ''t1'' None (Some COMPLETE)
                      (Some [(''rows_deleted'', 42)]) None
    in get_scheduled_task object_loads db0 ''t1'' = Inr (Some task_t1)
       \<and> b1
       \<and> get_scheduled_task object_loads db1 ''t1''
           = Inr (Some (task_t1\<lparr>status := ACTIVE, timestamp := 1005\<rparr>))
       \<and> b2
       \<and> get_scheduled_task object_loads db2 ''t1''
           = Inr (Some (task_t1\<lparr>status := COMPLETE, timestamp := 1005,
                                   result := Some [(''rows_deleted'', 42)]\<rparr>)))"
  by code_simp

subsection \<open>The JSON codec gives back what it wrote\<close>

declare nat_digits.simps [simp del]

lemma digit_facts:
  assumes "d < 10"
  shows "is_digit (''0123456789'' ! d)"
    and "digit_value (''0123456789'' ! d) = int d"
    and "''0123456789'' ! d \<noteq> CHR ''-''"
    and "(''0123456789'' ! d = CHR ''0'') = (d = 0)"
proof -
  from assms have "d \<in> {0, 1, 2, 3, 4, 5, 6, 7, 8, 9}" by auto
  then show "is_digit (''0123456789'' ! d)"
    and "digit_value (''0123456789'' ! d) = int d"
    and "''0123456789'' ! d \<noteq> CHR ''-''"
    and "(''0123456789'' ! d = CHR ''0'') = (d = 0)"
    by (auto simp: is_digit_def digit_value_def)
qed

lemma nat_digits_not_empty: "nat_digits n \<noteq> []"
  by (subst nat_digits.simps) simp

lemma nat_digits_digits: "c \<in> set (nat_digits n) \<Longrightarrow> is_digit c"
proof (induction n rule: nat_digits.induct)
  case (1 n)
  show ?case
  proof (cases "n < 10")
    case True
    with "1.prems" show ?thesis
      by (subst (asm) nat_digits.simps) (simp add: digit_facts)
  next
    case False
    with "1.prems" "1.IH" show ?thesis
      by (subst (asm) nat_digits.simps) (auto simp: digit_facts)
  qed
qed

lemma nat_digits_value:
  "foldl (\<lambda>a c. 10 * a + digit_value c) 0 (nat_digits n) = int n"
proof (induction n rule: nat_digits.induct)
  case (1 n)
  show ?case
  proof (cases "n < 10")
    case True
    then show ?thesis
      by (subst nat_digits.simps) (simp add: digit_facts)
  next
    case False
    with "1.IH" show ?thesis
      by (subst nat_digits.simps) (simp add: digit_facts zdiv_int zmod_int)
  qed
qed

lemma nat_digits_hd: "0 < n \<Longrightarrow> hd (nat_digits n) \<noteq> CHR ''0''"
proof (induction n rule: nat_digits.induct)
  case (1 n)
  show ?case
  proof (cases "n < 10")
    case True
    from "1.prems" have ne: "''0123456789'' ! n \<noteq> CHR ''0''"
      by (simp only: digit_facts(4) [OF True])
    have eq: "nat_digits n = [''0123456789'' ! n]"
      using True by (subst nat_digits.simps) simp
    show ?thesis
      unfolding eq list.sel by (rule ne)
  next
    case False
    then have "0 < n div 10" by simp
    with False "1.IH" show ?thesis
      by (subst nat_digits.simps) (simp add: nat_digits_not_empty)
  qed
qed

lemma nat_digits_single: "1 < length (nat_digits n) \<Longrightarrow> 0 < n"
  by (subst (asm) nat_digits.simps) (auto split: if_splits)

lemma nat_digits_no_leading_zero:
  "\<not> (1 < length (nat_digits n) \<and> hd (nat_digits n) = CHR ''0'')"
  using nat_digits_single [of n] nat_digits_hd [of n] by blast

lemma nat_digits_hd_digit: "is_digit (hd (nat_digits n))"
  using nat_digits_not_empty [of n] nat_digits_digits [of "hd (nat_digits n)" n]
  by simp

lemma takeWhile_digits:
  "number_end rest \<Longrightarrow> takeWhile is_digit (nat_digits n @ rest) = nat_digits n"
  "number_end rest \<Longrightarrow> dropWhile is_digit (nat_digits n @ rest) = rest"
  by (cases rest; simp add: number_end_def takeWhile_append dropWhile_append nat_digits_digits
        takeWhile_eq_all_conv dropWhile_eq_Nil_conv)+

lemma minus_not_digit: "\<not> is_digit (CHR ''-'')"
  by (simp add: is_digit_def)

lemma parse_int_text:
  assumes "number_end rest"
  shows "parse_int (int_text i @ rest) = Some (i, rest)"
proof (cases "i < 0")
  case True
  then show ?thesis
    using nat_digits_no_leading_zero [of "nat (- i)"]
    by (simp add: parse_int_def int_text_def takeWhile_digits [OF assms] nat_digits_value
        nat_digits_not_empty Let_def)
next
  case False
  have "hd (nat_digits (nat i) @ rest) \<noteq> CHR ''-''"
    using nat_digits_hd_digit [of "nat i"] minus_not_digit
    by (auto simp: nat_digits_not_empty)
  with False show ?thesis
    using nat_digits_no_leading_zero [of "nat i"]
    by (simp add: parse_int_def int_text_def takeWhile_digits [OF assms] nat_digits_value
        nat_digits_not_empty Let_def)
qed

lemma of_char_hex_digit:
  "d < 16 \<Longrightarrow> (of_char (hex_digit d) :: nat) = (if d < 10 then 48 + d else 87 + d)"
  by (simp add: hex_digit_def)

lemma hex_value_digit: "d < 16 \<Longrightarrow> hex_value (hex_digit d) = Some d"
  by (simp add: hex_value_def of_char_hex_digit Let_def)

lemma unicode_escape_hex:
  "unicode_escape (CHR ''0'') (CHR ''0'') (hex_digit (of_char c div 16)) (hex_digit (of_char c mod 16))
     = Some c"
proof -
  have "(of_char c :: nat) < 256" by simp
  then have d: "(of_char c :: nat) div 16 < 16" by arith
  have z: "hex_value (CHR ''0'') = Some 0" by (simp add: hex_value_def)
  have "16 * ((of_char c :: nat) div 16) + of_char c mod 16 = of_char c" by simp
  then show ?thesis
    by (simp add: unicode_escape_def z hex_value_digit d)
qed

lemma parse_chars_escape:
  "parse_chars (escape_char c @ t) =
     (case parse_chars t of None \<Rightarrow> None | Some (s, rest) \<Rightarrow> Some (c # s, rest))"
proof (cases "c \<in> {CHR 0x22, CHR 0x5C, CHR 0x08, CHR 0x0C, CHR 0x0A, CHR 0x0D, CHR 0x09}")
  case True
  then show ?thesis
    by (auto simp: escape_char_def unescape_def)
next
  case False
  show ?thesis
  proof (cases "(of_char c :: nat) < 32 \<or> 126 < (of_char c :: nat)")
    case True
    with False have "escape_char c = [CHR 0x5C, CHR ''u'', CHR ''0'', CHR ''0'',
              hex_digit (of_char c div 16), hex_digit (of_char c mod 16)]"
      by (simp add: escape_char_def)
    then show ?thesis
      by (simp add: unicode_escape_hex)
  next
    case plain: False
    with False have "escape_char c = [c]"
      by (simp add: escape_char_def)
    with False plain show ?thesis
      by simp
  qed
qed

lemma parse_chars_text:
  "parse_chars (concat (map escape_char s) @ CHR 0x22 # rest) = Some (s, rest)"
proof (induction s)
  case Nil
  show ?case by simp
next
  case (Cons c s)
  then show ?case
    by (simp add: parse_chars_escape del: parse_chars.simps)
qed

lemma string_text_append:
  "string_text k @ rest = CHR 0x22 # concat (map escape_char k) @ CHR 0x22 # rest"
  by (simp add: string_text_def)

lemma dict_insert_new: "fst m \<notin> fst ` set ps \<Longrightarrow> dict_insert ps m = ps @ [m]"
  by (induction ps) auto

lemma foldl_dict_insert:
  "distinct (map fst (acc @ ms)) \<Longrightarrow> foldl dict_insert acc ms = acc @ ms"
proof (induction ms arbitrary: acc)
  case Nil
  show ?case by simp
next
  case (Cons m ms)
  from Cons.prems have new: "fst m \<notin> fst ` set acc" by auto
  from Cons.prems have "distinct (map fst ((acc @ [m]) @ ms))" by simp
  from Cons.IH [OF this] show ?case
    by (simp add: dict_insert_new [OF new])
qed

lemma dict_of_distinct: "distinct (map fst ms) \<Longrightarrow> dict_of ms = ms"
  using foldl_dict_insert [of "[]" ms] by (simp add: dict_of_def)

lemma skip_value_start: "value_start s \<Longrightarrow> dropWhile is_ws s = s"
  by (cases s) (simp_all add: value_start_def)

lemma skip_space: "dropWhile is_ws (CHR '' '' # s) = dropWhile is_ws s"
  by (simp add: is_ws_def)

lemma int_text_first: "\<exists>c cs. int_text i = c # cs \<and> (is_digit c \<or> c = CHR ''-'')"
proof (cases "i < 0")
  case True
  then show ?thesis by (simp add: int_text_def)
next
  case False
  with nat_digits_hd_digit [of "nat i"] nat_digits_not_empty [of "nat i"] show ?thesis
    by (cases "nat_digits (nat i)") (simp_all add: int_text_def)
qed

lemma digit_or_minus:
  assumes "is_digit c \<or> c = CHR ''-''"
  shows "\<not> is_ws c" "c \<noteq> CHR '']''" "c \<noteq> CHR ''}''" "c \<noteq> CHR 0x22" "c \<noteq> CHR ''[''"
    "c \<noteq> CHR ''{''" "c \<noteq> CHR ''n''" "c \<noteq> CHR ''t''" "c \<noteq> CHR ''f''"
  using assms by (auto simp: is_digit_def is_ws_def)

lemma value_start_json_text: "value_start (json_text v @ r)"
proof (cases v)
  case (JInt i)
  from int_text_first [of i] obtain c cs
    where "int_text i = c # cs" "is_digit c \<or> c = CHR ''-''" by blast
  with JInt show ?thesis
    by (simp add: value_start_def digit_or_minus)
qed (simp_all add: value_start_def is_ws_def string_text_def)

lemma value_start_elements: "vs \<noteq> [] \<Longrightarrow> value_start (elements_text vs @ r)"
  using value_start_json_text [of "hd vs"]
  by (cases vs) (simp_all add: value_start_def)

lemma value_start_members: "ms \<noteq> [] \<Longrightarrow> value_start (members_text ms @ r)"
  by (cases ms) (auto simp: value_start_def is_ws_def string_text_def)

lemma json_text_not_empty: "0 < length (json_text v)"
  using value_start_json_text [of v "[]"] by (simp add: value_start_def)

lemma number_end_delimiter:
  "number_end (CHR '']'' # r)" "number_end (CHR ''}'' # r)" "number_end (CHR '','' # r)"
  "number_end []"
  by (simp_all add: number_end_def is_digit_def)

lemma parse_atoms:
  "json_parse_value (Suc m) (''null'' @ rest) = Some (JNull, rest)"
  "json_parse_value (Suc m) (''true'' @ rest) = Some (JBool True, rest)"
  "json_parse_value (Suc m) (''false'' @ rest) = Some (JBool False, rest)"
  by simp_all

lemma parse_int_value:
  assumes "number_end rest"
  shows "json_parse_value (Suc m) (int_text i @ rest) = Some (JInt i, rest)"
proof -
  from int_text_first [of i] obtain c cs
    where eq: "int_text i = c # cs" and c: "is_digit c \<or> c = CHR ''-''" by blast
  have p: "parse_int (c # cs @ rest) = Some (i, rest)"
    using parse_int_text [OF assms, of i] by (simp add: eq)
  show ?thesis
    unfolding eq using digit_or_minus [OF c] by (simp add: p)
qed

lemma parse_string_value:
  "json_parse_value (Suc m) (string_text s @ rest) = Some (JString s, rest)"
  by (simp add: string_text_append parse_chars_text del: parse_chars.simps)

lemma parse_empty:
  "json_parse_value (Suc m) (''[]'' @ rest) = Some (JArray [], rest)"
  "json_parse_value (Suc m) (''{}'' @ rest) = Some (JObject [], rest)"
  by (simp_all add: is_ws_def)

lemma parse_array:
  assumes "value_start s" and "json_parse_elements m s = Some (vs, rest)"
  shows "json_parse_value (Suc m) (CHR ''['' # s) = Some (JArray vs, rest)"
  using assms by (simp add: skip_value_start) (simp add: value_start_def)

lemma parse_object:
  assumes "value_start s" and "json_parse_members m s = Some (ms, rest)"
  shows "json_parse_value (Suc m) (CHR ''{'' # s) = Some (JObject (dict_of ms), rest)"
  using assms by (simp add: skip_value_start) (simp add: value_start_def)

lemma parse_last_element:
  assumes "json_parse_value m s = Some (v, CHR '']'' # rest)"
  shows "json_parse_elements (Suc m) s = Some ([v], rest)"
  using assms by (simp add: is_ws_def)

lemma parse_next_element:
  assumes "json_parse_value m s = Some (v, CHR '','' # CHR '' '' # t)"
    and "value_start t" and "json_parse_elements m t = Some (vs, rest)"
  shows "json_parse_elements (Suc m) s = Some (v # vs, rest)"
  using assms by (simp add: is_ws_def skip_value_start)

lemma parse_key:
  "parse_chars (concat (map escape_char k) @ CHR 0x22 # CHR '':'' # CHR '' '' # t)
     = Some (k, CHR '':'' # CHR '' '' # t)"
  by (rule parse_chars_text)

lemma parse_last_member:
  assumes "value_start t" and "json_parse_value m t = Some (v, CHR ''}'' # rest)"
  shows "json_parse_members (Suc m) (string_text k @ '': '' @ t) = Some ([(k, v)], rest)"
  using assms
  by (simp add: string_text_def parse_chars_text is_ws_def skip_value_start
      del: parse_chars.simps)

lemma parse_next_member:
  assumes "value_start t" and "json_parse_value m t = Some (v, CHR '','' # CHR '' '' # u)"
    and "value_start u" and "json_parse_members m u = Some (ms, rest)"
  shows "json_parse_members (Suc m) (string_text k @ '': '' @ t) = Some ((k, v) # ms, rest)"
  using assms
  by (simp add: string_text_def parse_chars_text is_ws_def skip_value_start
      del: parse_chars.simps)

declare json_parse_value.simps [simp del]
declare json_parse_elements.simps [simp del]
declare json_parse_members.simps [simp del]

lemma parse_text:
  "well_formed v \<Longrightarrow> length (json_text v) \<le> n \<Longrightarrow> number_end rest \<Longrightarrow>
     json_parse_value n (json_text v @ rest) = Some (v, rest)"
  "vs \<noteq> [] \<Longrightarrow> list_all well_formed vs \<Longrightarrow> length (elements_text vs) \<le> n \<Longrightarrow>
     json_parse_elements n (elements_text vs @ rest) = Some (vs, rest)"
  "ms \<noteq> [] \<Longrightarrow> list_all (\<lambda>m. well_formed (snd m)) ms \<Longrightarrow>
   length (members_text ms) \<le> n \<Longrightarrow>
     json_parse_members n (members_text ms @ rest) = Some (ms, rest)"
proof (induction v and vs and ms arbitrary: n rest and n rest and n rest
    rule: json_text_elements_text_members_text.induct)
  case 1
  then obtain m where "n = Suc m" by (cases n) simp_all
  then show ?case using parse_atoms(1) by simp
next
  case (2 b)
  then obtain m where "n = Suc m" by (cases n) (simp_all split: if_splits)
  then show ?case using parse_atoms(2,3) by (cases b) simp_all
next
  case (3 i)
  from json_text_not_empty [of "JInt i"] "3.prems"(2) obtain m where "n = Suc m"
    by (cases n) simp_all
  with "3.prems"(3) show ?case by (simp add: parse_int_value)
next
  case (4 s)
  from json_text_not_empty [of "JString s"] "4.prems"(2) obtain m where "n = Suc m"
    by (cases n) simp_all
  then show ?case by (simp add: parse_string_value)
next
  case (5 vs)
  from json_text_not_empty [of "JArray vs"] "5.prems"(2) obtain m where n: "n = Suc m"
    by (cases n) simp_all
  show ?case
  proof (cases "vs = []")
    case True
    with n show ?thesis using parse_empty(1) by simp
  next
    case False
    with "5.prems" n have "json_parse_elements m (elements_text vs @ rest) = Some (vs, rest)"
      by (intro "5.IH") simp_all
    with False n show ?thesis
      by (simp add: parse_array value_start_elements)
  qed
next
  case (6 ms)
  from json_text_not_empty [of "JObject ms"] "6.prems"(2) obtain m where n: "n = Suc m"
    by (cases n) simp_all
  show ?case
  proof (cases "ms = []")
    case True
    with n show ?thesis using parse_empty(2) by simp
  next
    case False
    with "6.prems" n have "json_parse_members m (members_text ms @ rest) = Some (ms, rest)"
      by (intro "6.IH") simp_all
    from parse_object [OF value_start_members [OF False] this] "6.prems"(1) False n
    show ?thesis
      by (simp add: dict_of_distinct)
  qed
next
  case 7
  then show ?case by simp
next
  case (8 v vs)
  from "8.prems"(3) json_text_not_empty [of v] obtain m where n: "n = Suc m"
    by (cases n) simp_all
  from "8.prems"(2) have wf: "well_formed v" and wfs: "list_all well_formed vs"
    by simp_all
  show ?case
  proof (cases "vs = []")
    case True
    with "8.prems"(3) n have "length (json_text v) \<le> m" by simp
    from "8.IH"(1) [OF wf this number_end_delimiter(1)]
    have "json_parse_value m (json_text v @ CHR '']'' # rest) = Some (v, CHR '']'' # rest)" .
    from parse_last_element [OF this] True n show ?thesis by simp
  next
    case False
    with "8.prems"(3) n have lv: "length (json_text v) \<le> m"
      and lvs: "length (elements_text vs) \<le> m"
      by simp_all
    let ?t = "elements_text vs @ rest"
    from "8.IH"(1) [OF wf lv number_end_delimiter(3)]
    have a: "json_parse_value m (json_text v @ CHR '','' # CHR '' '' # ?t)
        = Some (v, CHR '','' # CHR '' '' # ?t)" .
    from "8.IH"(2) [OF False False wfs lvs]
    have b: "json_parse_elements m ?t = Some (vs, rest)" .
    from parse_next_element [OF a value_start_elements [OF False] b] False n
    show ?thesis by simp
  qed
next
  case 9
  then show ?case by simp
next
  case (10 k v ms)
  from "10.prems"(3) json_text_not_empty [of v] obtain m where n: "n = Suc m"
    by (cases n) simp_all
  from "10.prems"(2) have wf: "well_formed v"
    and wfs: "list_all (\<lambda>m. well_formed (snd m)) ms"
    by simp_all
  show ?case
  proof (cases "ms = []")
    case True
    with "10.prems"(3) n have "length (json_text v) \<le> m" by simp
    from "10.IH"(1) [OF wf this number_end_delimiter(2)]
    have "json_parse_value m (json_text v @ CHR ''}'' # rest) = Some (v, CHR ''}'' # rest)" .
    from parse_last_member [OF value_start_json_text this] True n show ?thesis by simp
  next
    case False
    with "10.prems"(3) n have lv: "length (json_text v) \<le> m"
      and lms: "length (members_text ms) \<le> m"
      by simp_all
    let ?u = "members_text ms @ rest"
    from "10.IH"(1) [OF wf lv number_end_delimiter(3)]
    have a: "json_parse_value m (json_text v @ CHR '','' # CHR '' '' # ?u)
        = Some (v, CHR '','' # CHR '' '' # ?u)" .
    from "10.IH"(2) [OF False False wfs lms]
    have b: "json_parse_members m ?u = Some (ms, rest)" .
    from parse_next_member [OF value_start_json_text a value_start_members [OF False] b] False n
    show ?thesis by simp
  qed
qed

lemma json_roundtrip:
  assumes "well_formed v" and "v \<noteq> JNull"
  shows "json_loads (json_dumps v) = Inr (Some v)"
proof -
  have s: "dropWhile is_ws (json_text v) = json_text v"
    using skip_value_start [OF value_start_json_text [of v "[]"]] by simp
  have "json_parse_value (length (json_text v)) (json_text v @ []) = Some (v, [])"
    using assms(1) by (intro parse_text(1) number_end_delimiter) simp_all
  with assms(2) show ?thesis
    by (simp add: json_loads_def json_dumps_def s)
qed

section \<open>The claims\<close>

subsection \<open>C1: the filters of list\<close>

text \<open>
  Claim C1. List returns the conversions of the rows that pass all three filters, and a
  filter has three states: absent, it passes every row; empty, it passes the rows whose
  column is NULL; otherwise it passes the rows whose column holds one of the given
  values. With the three filters absent every row is converted. After any history of
  upserts and deletions that starts on the empty table, list returns, once each, the
  tasks upserted and not deleted since that pass the filters, and all of them when the
  filters are absent; the codec is assumed to give back the values of the upserted tasks.
\<close>

theorem list_three_state_filters:
  "get_scheduled_tasks loads db actions resource_ids statuses =
     convert_rows loads
       (filter (\<lambda>r. three_state actions (Some (action_col r))
                  \<and> three_state resource_ids (resource_id_col r)
                  \<and> three_state (map_option (map status_value) statuses) (Some (status_col r)))
          db)
   \<and> get_scheduled_tasks loads db None None None = convert_rows loads db
   \<and> (list_all (call_roundtrips dumps loads) cs \<longrightarrow>
        (\<exists>ts. get_scheduled_tasks loads (table_after dumps cs) actions resource_ids statuses
                = Inr ts
           \<and> distinct (map id' ts)
           \<and> set ts =
               {t \<in> ran (stored cs).
                  three_state actions (Some (action t))
                  \<and> three_state resource_ids (resource_id t)
                  \<and> three_state (map_option (map status_value) statuses)
                      (Some (status_value (status t)))}))
   \<and> (list_all (call_roundtrips dumps loads) cs \<longrightarrow>
        (\<exists>ts. get_scheduled_tasks loads (table_after dumps cs) None None None = Inr ts
           \<and> distinct (map id' ts)
           \<and> set ts = ran (stored cs)))"
proof -
  have a: "get_scheduled_tasks loads db actions resource_ids statuses =
     convert_rows loads
       (filter (\<lambda>r. three_state actions (Some (action_col r))
                  \<and> three_state resource_ids (resource_id_col r)
                  \<and> three_state (map_option (map status_value) statuses) (Some (status_col r)))
          db)"
    by (simp add: get_scheduled_tasks_def txn_selected selected_def)
  have b: "get_scheduled_tasks loads db None None None = convert_rows loads db"
    by (simp add: get_scheduled_tasks_def get_scheduled_tasks_txn_def)
  have c: "\<exists>ts. get_scheduled_tasks loads (table_after dumps cs) actions resource_ids statuses
                = Inr ts
           \<and> distinct (map id' ts)
           \<and> set ts =
               {t \<in> ran (stored cs).
                  three_state actions (Some (action t))
                  \<and> three_state resource_ids (resource_id t)
                  \<and> three_state (map_option (map status_value) statuses)
                      (Some (status_value (status t)))}"
    if "list_all (call_roundtrips dumps loads) cs"
    using holds_tasks_filtered [OF holds_tasks_history [OF that], of actions resource_ids statuses]
    by (simp add: selected_def)
  have d: "\<exists>ts. get_scheduled_tasks loads (table_after dumps cs) None None None = Inr ts
           \<and> distinct (map id' ts) \<and> set ts = ran (stored cs)"
    if "list_all (call_roundtrips dumps loads) cs"
    using holds_tasks_filtered [OF holds_tasks_history [OF that], of None None None]
    by (simp add: selected_def three_state_def)
  from a b c d show ?thesis by blast
qed

theorem list_three_state_filters_witness:
  "list_all (call_roundtrips object_dumps object_loads)
     [Upsert task_t1, Upsert task_t2, Delete ''t1'', Upsert task_t1]
   \<and> table_after object_dumps [Upsert task_t1, Upsert task_t2, Delete ''t1'', Upsert task_t1]
       = [row_t2, row_t1]
   \<and> get_scheduled_tasks object_loads [row_t2, row_t1] None None None = Inr [task_t2, task_t1]
   \<and> get_scheduled_tasks object_loads [row_t2, row_t1] None (Some []) None = Inr [task_t2]
   \<and> get_scheduled_tasks object_loads [row_t2, row_t1] None (Some [''room1'', ''room2'']) None
       = Inr [task_t1]
   \<and> get_scheduled_tasks object_loads [row_t2, row_t1] (Some []) None None = Inr []
   \<and> get_scheduled_tasks object_loads [row_t2, row_t1] (Some [''purge_history''])
       (Some [''room1'']) (Some [COMPLETE]) = Inr []
   \<and> get_scheduled_tasks object_loads [row_t2, row_t1] None None (Some [COMPLETE, FAILED])
       = Inr [task_t2]
   \<and> (\<exists>ts. get_scheduled_tasks object_loads
              (table_after object_dumps [Upsert task_t1, Upsert task_t2, Delete ''t1'', Upsert task_t1])
              None (Some []) None = Inr ts
          \<and> distinct (map id' ts)
          \<and> set ts =
              {t \<in> ran (stored [Upsert task_t1, Upsert task_t2, Delete ''t1'', Upsert task_t1]).
                 three_state None (Some (action t))
                 \<and> three_state (Some []) (resource_id t)
                 \<and> three_state (map_option (map status_value) None)
                     (Some (status_value (status t)))})
   \<and> (\<exists>ts. get_scheduled_tasks object_loads
              (table_after object_dumps [Upsert task_t1, Upsert task_t2, Delete ''t1'', Upsert task_t1])
              None None None = Inr ts
          \<and> distinct (map id' ts)
          \<and> set ts = ran (stored [Upsert task_t1, Upsert task_t2, Delete ''t1'', Upsert task_t1]))"
proof -
  let ?cs = "[Upsert task_t1, Upsert task_t2, Delete ''t1'', Upsert task_t1]"
  have h: "list_all (call_roundtrips object_dumps object_loads) ?cs" by code_simp
  have tb: "table_after object_dumps ?cs = [row_t2, row_t1]" by code_simp
  have l0: "get_scheduled_tasks object_loads [row_t2, row_t1] None None None
       = Inr [task_t2, task_t1]"
    by code_simp
  have l1: "get_scheduled_tasks object_loads [row_t2, row_t1] None (Some []) None = Inr [task_t2]"
    by code_simp
  have l2: "get_scheduled_tasks object_loads [row_t2, row_t1] None (Some [''room1'', ''room2'']) None
       = Inr [task_t1]"
    by code_simp
  have l3: "get_scheduled_tasks object_loads [row_t2, row_t1] (Some []) None None = Inr []"
    by code_simp
  have l4: "get_scheduled_tasks object_loads [row_t2, row_t1] (Some [''purge_history''])
       (Some [''room1'']) (Some [COMPLETE]) = Inr []"
    by code_simp
  have l5: "get_scheduled_tasks object_loads [row_t2, row_t1] None None (Some [COMPLETE, FAILED])
       = Inr [task_t2]"
    by code_simp
  note t = list_three_state_filters [of object_loads "[row_t2, row_t1]" None "Some []" None
      object_dumps ?cs]
  show ?thesis
    by (intro conjI h tb l0 l1 l2 l3 l4 l5
        t [THEN conjunct2, THEN conjunct2, THEN conjunct1, rule_format, OF h]
        t [THEN conjunct2, THEN conjunct2, THEN conjunct2, rule_format, OF h])
qed

subsection \<open>C2: upsert, then get\<close>

text \<open>
  Claim C2. For every task \<open>T\<close> and every table, upserting \<open>T\<close> and then fetching by the id
  of \<open>T\<close> returns \<open>T\<close> itself, field by field. \<^verbatim>\<open>params\<close> and \<^verbatim>\<open>result\<close> go through
  \<^verbatim>\<open>json.dumps\<close> on the way in and \<^verbatim>\<open>json.loads\<close> on the way out and come back as the
  values they were: the decoder returns the value that was encoded, whatever its text,
  and an absent field comes back absent. The fields of \<open>T\<close> are what a task can hold:
  absent, or a JSON value other than \<^verbatim>\<open>None\<close> whose dictionaries have each key once.
\<close>

theorem upsert_then_get:
  assumes "json_field (params T)" and "json_field (result T)"
  shows "get_scheduled_task json_loads (upsert_scheduled_task json_dumps db T) (id' T)
       = Inr (Some T)
     \<and> (\<forall>v. params T = Some v \<longrightarrow> json_loads (json_dumps v) = Inr (Some v))
     \<and> (\<forall>v. result T = Some v \<longrightarrow> json_loads (json_dumps v) = Inr (Some v))
     \<and> (params T = None \<longrightarrow>
          (\<exists>t. get_scheduled_task json_loads (upsert_scheduled_task json_dumps db T) (id' T)
                  = Inr (Some t) \<and> params t = None))
     \<and> (result T = None \<longrightarrow>
          (\<exists>t. get_scheduled_task json_loads (upsert_scheduled_task json_dumps db T) (id' T)
                  = Inr (Some t) \<and> result t = None))"
proof -
  have p: "roundtrips json_dumps json_loads (params T)"
    using assms(1) by (cases "params T") (simp_all add: roundtrips_def json_field_def json_roundtrip)
  have r: "roundtrips json_dumps json_loads (result T)"
    using assms(2) by (cases "result T") (simp_all add: roundtrips_def json_field_def json_roundtrip)
  have g: "get_scheduled_task json_loads (upsert_scheduled_task json_dumps db T) (id' T)
       = Inr (Some T)"
    by (simp add: get_scheduled_task_def select_upsert_task convert_written_row [OF p r])
  from p have "json_loads (json_dumps v) = Inr (Some v)" if "params T = Some v" for v
    using that by (simp add: roundtrips_def)
  moreover from r have "json_loads (json_dumps v) = Inr (Some v)" if "result T = Some v" for v
    using that by (simp add: roundtrips_def)
  ultimately show ?thesis
    using g by simp
qed

theorem upsert_then_get_witness:
  "json_field (params task_j1) \<and> json_field (result task_j1)
   \<and> get_scheduled_task json_loads (upsert_scheduled_task json_dumps [row_t2] task_j1)
       (id' task_j1) = Inr (Some task_j1)
   \<and> json_field (params task_j2) \<and> json_field (result task_j2)
   \<and> get_scheduled_task json_loads (upsert_scheduled_task json_dumps [row_t2] task_j2)
       (id' task_j2) = Inr (Some task_j2)
   \<and> result task_j2 = Some (JObject [(''rows_deleted'', JInt 42)])
   \<and> json_loads (json_dumps (JObject [(''rows_deleted'', JInt 42)]))
       = Inr (Some (JObject [(''rows_deleted'', JInt 42)]))
   \<and> result task_j1 = None
   \<and> (\<exists>t. get_scheduled_task json_loads (upsert_scheduled_task json_dumps [row_t2] task_j1)
             (id' task_j1) = Inr (Some t) \<and> result t = None)"
proof -
  have p1: "json_field (params task_j1)" by code_simp
  have r1: "json_field (result task_j1)" by code_simp
  have p2: "json_field (params task_j2)" by code_simp
  have r2: "json_field (result task_j2)" by code_simp
  have v2: "result task_j2 = Some (JObject [(''rows_deleted'', JInt 42)])"
    by (simp add: task_j2_def)
  have n1: "result task_j1 = None" by (simp add: task_j1_def)
  note t1 = upsert_then_get [OF p1 r1, of "[row_t2]"]
  note t2 = upsert_then_get [OF p2 r2, of "[row_t2]"]
  show ?thesis
    by (intro conjI p1 r1 p2 r2 v2 n1 t1 [THEN conjunct1] t2 [THEN conjunct1]
        t2 [THEN conjunct2, THEN conjunct2, THEN conjunct1, rule_format, OF v2]
        t1 [THEN conjunct2, THEN conjunct2, THEN conjunct2, THEN conjunct2, rule_format, OF n1])
qed

subsection \<open>C3: update touches the supplied fields only\<close>

text \<open>
  Claim C3. A call of update keeps every row in its place and changes, in the rows of
  the given id, exactly the fields among \<^verbatim>\<open>timestamp\<close>, \<^verbatim>\<open>status\<close>, \<^verbatim>\<open>result\<close> and
  \<^verbatim>\<open>error\<close> that the call supplies: a supplied field takes the new value, an omitted
  one keeps the stored value, and \<^verbatim>\<open>id\<close>, \<^verbatim>\<open>action\<close>, \<^verbatim>\<open>resource_id\<close> and \<^verbatim>\<open>params\<close> are
  never changed. Rows of other ids are unchanged in every field. Read through get: the
  task of the given id comes back with the supplied fields replaced and nothing else
  (the codec giving back the supplied result), and the task of any other id comes back
  as before.
\<close>

theorem update_frame:
  assumes "update_scheduled_task dumps db i ts st res err = (b, db')"
  shows "list_all2
     (\<lambda>r r'. id_col r' = id_col r \<and> action_col r' = action_col r
        \<and> resource_id_col r' = resource_id_col r \<and> params_col r' = params_col r
        \<and> timestamp_col r' =
             (if id_col r = i then (case ts of None \<Rightarrow> timestamp_col r | Some t \<Rightarrow> t)
              else timestamp_col r)
        \<and> status_col r' =
             (if id_col r = i then (case st of None \<Rightarrow> status_col r | Some s \<Rightarrow> status_value s)
              else status_col r)
        \<and> result_col r' =
             (if id_col r = i then (case res of None \<Rightarrow> result_col r | Some v \<Rightarrow> Some (dumps v))
              else result_col r)
        \<and> error_col r' =
             (if id_col r = i then (case err of None \<Rightarrow> error_col r | Some e \<Rightarrow> Some e)
              else error_col r))
     db db'
   \<and> (\<forall>t. get_scheduled_task loads db i = Inr (Some t) \<and> roundtrips dumps loads res \<longrightarrow>
         get_scheduled_task loads db' i =
           Inr (Some (t\<lparr>timestamp := (case ts of None \<Rightarrow> timestamp t | Some v \<Rightarrow> v),
                         status := (case st of None \<Rightarrow> status t | Some s \<Rightarrow> s),
                         result := (case res of None \<Rightarrow> result t | Some v \<Rightarrow> Some v),
                         error := (case err of None \<Rightarrow> error t | Some e \<Rightarrow> Some e)\<rparr>)))
   \<and> (\<forall>j. j \<noteq> i \<longrightarrow> get_scheduled_task loads db' j = get_scheduled_task loads db j)"
proof -
  have snd: "db' = snd (update_scheduled_task dumps db i ts st res err)"
    using assms by simp
  have db': "db' = map (\<lambda>r. if id_col r = i then assign (update_dict dumps ts st res err) r else r) db"
    unfolding snd by (rule update_table)
  have rows: "list_all2
     (\<lambda>r r'. id_col r' = id_col r \<and> action_col r' = action_col r
        \<and> resource_id_col r' = resource_id_col r \<and> params_col r' = params_col r
        \<and> timestamp_col r' =
             (if id_col r = i then (case ts of None \<Rightarrow> timestamp_col r | Some t \<Rightarrow> t)
              else timestamp_col r)
        \<and> status_col r' =
             (if id_col r = i then (case st of None \<Rightarrow> status_col r | Some s \<Rightarrow> status_value s)
              else status_col r)
        \<and> result_col r' =
             (if id_col r = i then (case res of None \<Rightarrow> result_col r | Some v \<Rightarrow> Some (dumps v))
              else result_col r)
        \<and> error_col r' =
             (if id_col r = i then (case err of None \<Rightarrow> error_col r | Some e \<Rightarrow> Some e)
              else error_col r))
     db db'"
    unfolding db' list_all2_map2
    by (rule list_all2_refl) (simp add: assign_def update_dict_def split: option.splits)
  have same: "get_scheduled_task loads db' i =
           Inr (Some (t\<lparr>timestamp := (case ts of None \<Rightarrow> timestamp t | Some v \<Rightarrow> v),
                         status := (case st of None \<Rightarrow> status t | Some s \<Rightarrow> s),
                         result := (case res of None \<Rightarrow> result t | Some v \<Rightarrow> Some v),
                         error := (case err of None \<Rightarrow> error t | Some e \<Rightarrow> Some e)\<rparr>))"
    if "get_scheduled_task loads db i = Inr (Some t)" and "roundtrips dumps loads res" for t
    unfolding snd using that by (rule get_update)
  have other: "get_scheduled_task loads db' j = get_scheduled_task loads db j" if "j \<noteq> i" for j
    unfolding snd using that by (rule get_update_other)
  from rows same other show ?thesis by blast
qed

theorem update_frame_witness:
  "update_scheduled_task object_dumps [row_t1, row_t2] ''t1'' None (Some COMPLETE)
      (Some [(''x'', 1)]) None =
     (True, [row_t1\<lparr>status_col := ''complete'', result_col := Some (object_dumps [(''x'', 1)])\<rparr>,
             row_t2])
   \<and> list_all2
     (\<lambda>r r'. id_col r' = id_col r \<and> action_col r' = action_col r
        \<and> resource_id_col r' = resource_id_col r \<and> params_col r' = params_col r
        \<and> timestamp_col r' = timestamp_col r
        \<and> status_col r' = (if id_col r = ''t1'' then ''complete'' else status_col r)
        \<and> result_col r' =
             (if id_col r = ''t1'' then Some (object_dumps [(''x'', 1)]) else result_col r)
        \<and> error_col r' = error_col r)
     [row_t1, row_t2]
     [row_t1\<lparr>status_col := ''complete'', result_col := Some (object_dumps [(''x'', 1)])\<rparr>, row_t2]
   \<and> get_scheduled_task object_loads [row_t1, row_t2] ''t1'' = Inr (Some task_t1)
   \<and> roundtrips object_dumps object_loads (Some [(''x'', 1)])
   \<and> get_scheduled_task object_loads
       [row_t1\<lparr>status_col := ''complete'', result_col := Some (object_dumps [(''x'', 1)])\<rparr>, row_t2]
       ''t1'' = Inr (Some (task_t1\<lparr>status := COMPLETE, result := Some [(''x'', 1)]\<rparr>))
   \<and> ''t2'' \<noteq> ''t1''
   \<and> get_scheduled_task object_loads
       [row_t1\<lparr>status_col := ''complete'', result_col := Some (object_dumps [(''x'', 1)])\<rparr>, row_t2]
       ''t2'' = Inr (Some task_t2)"
proof -
  have h: "update_scheduled_task object_dumps [row_t1, row_t2] ''t1'' None (Some COMPLETE)
      (Some [(''x'', 1)]) None =
     (True, [row_t1\<lparr>status_col := ''complete'', result_col := Some (object_dumps [(''x'', 1)])\<rparr>,
             row_t2])"
    by code_simp
  have g: "get_scheduled_task object_loads [row_t1, row_t2] ''t1'' = Inr (Some task_t1)"
    by code_simp
  have g2: "get_scheduled_task object_loads [row_t1, row_t2] ''t2'' = Inr (Some task_t2)"
    by code_simp
  have r: "roundtrips object_dumps object_loads (Some [(''x'', 1)])" by code_simp
  have ne: "''t2'' \<noteq> ''t1''" by simp
  note t = update_frame [OF h, of object_loads]
  have rows: "list_all2
     (\<lambda>r r'. id_col r' = id_col r \<and> action_col r' = action_col r
        \<and> resource_id_col r' = resource_id_col r \<and> params_col r' = params_col r
        \<and> timestamp_col r' = timestamp_col r
        \<and> status_col r' = (if id_col r = ''t1'' then ''complete'' else status_col r)
        \<and> result_col r' =
             (if id_col r = ''t1'' then Some (object_dumps [(''x'', 1)]) else result_col r)
        \<and> error_col r' = error_col r)
     [row_t1, row_t2]
     [row_t1\<lparr>status_col := ''complete'', result_col := Some (object_dumps [(''x'', 1)])\<rparr>, row_t2]"
    by (rule list_all2_mono [OF t [THEN conjunct1]]) simp
  from t [THEN conjunct2, THEN conjunct1, rule_format, OF conjI [OF g r]]
  have same: "get_scheduled_task object_loads
       [row_t1\<lparr>status_col := ''complete'', result_col := Some (object_dumps [(''x'', 1)])\<rparr>, row_t2]
       ''t1'' = Inr (Some (task_t1\<lparr>status := COMPLETE, result := Some [(''x'', 1)]\<rparr>))"
    by (simp add: task_t1_def)
  from t [THEN conjunct2, THEN conjunct2, rule_format, OF ne]
  have other: "get_scheduled_task object_loads
       [row_t1\<lparr>status_col := ''complete'', result_col := Some (object_dumps [(''x'', 1)])\<rparr>, row_t2]
       ''t2'' = Inr (Some task_t2)"
    by (simp add: g2)
  show ?thesis
    by (intro conjI h rows g r same ne other)
qed

subsection \<open>C4: update on an id that is not stored\<close>

text \<open>
  Claim C4. When no stored task has the id, update returns \<^verbatim>\<open>False\<close>, raises nothing and
  leaves the table as it was: no row is created. When a stored task has the id, update
  returns \<^verbatim>\<open>True\<close>.
\<close>

theorem update_reports_target:
  "(i \<notin> set (map id_col db) \<longrightarrow>
      update_scheduled_task dumps db i ts st res err = (False, db))
   \<and> (i \<in> set (map id_col db) \<longrightarrow>
      fst (update_scheduled_task dumps db i ts st res err) = True)"
  by (auto simp: update_scheduled_task_eq simple_update_def map_no_target filter_empty_conv)

theorem update_reports_target_witness:
  "''t9'' \<notin> set (map id_col [row_t1, row_t2])
   \<and> update_scheduled_task object_dumps [row_t1, row_t2] ''t9'' (Some 1005) (Some ACTIVE)
       (Some [(''x'', 1)]) (Some ''late'') = (False, [row_t1, row_t2])
   \<and> ''t2'' \<in> set (map id_col [row_t1, row_t2])
   \<and> fst (update_scheduled_task object_dumps [row_t1, row_t2] ''t2'' (Some 1005) (Some ACTIVE)
       (Some [(''x'', 1)]) (Some ''late'')) = True"
proof -
  have a: "''t9'' \<notin> set (map id_col [row_t1, row_t2])" by code_simp
  have b: "''t2'' \<in> set (map id_col [row_t1, row_t2])" by code_simp
  note t9 = update_reports_target [of "''t9''" "[row_t1, row_t2]" object_dumps "Some 1005"
      "Some ACTIVE" "Some [(''x'', 1)]" "Some ''late''"]
  note t2 = update_reports_target [of "''t2''" "[row_t1, row_t2]" object_dumps "Some 1005"
      "Some ACTIVE" "Some [(''x'', 1)]" "Some ''late''"]
  show ?thesis
    by (intro conjI a b t9 [THEN conjunct1, rule_format, OF a]
        t2 [THEN conjunct2, rule_format, OF b])
qed

subsection \<open>C5: upsert writes the whole row\<close>

text \<open>
  Claim C5. Upsert is an insert-or-replace keyed by id that writes every attribute: after
  upserting \<open>T\<close> into any table, the row stored under the id of \<open>T\<close> holds the fields of
  \<open>T\<close>, whatever was stored before. \<^verbatim>\<open>params\<close> and \<^verbatim>\<open>result\<close> are turned into text only
  when present; an absent one is stored as NULL and a present one never is, so absence
  stays apart from an empty structure. The rows of other ids are untouched, a row is
  added only when the id was not stored, the primary key is kept, and a second upsert of
  the same task changes nothing.
\<close>

theorem upsert_writes_whole_row:
  "simple_select_one (upsert_scheduled_task dumps db T) (id' T) =
     Some \<lparr>id_col = id' T, action_col = action T, status_col = status_value (status T),
           timestamp_col = timestamp T, resource_id_col = resource_id T,
           params_col = (case params T of None \<Rightarrow> None | Some p \<Rightarrow> Some (dumps p)),
           result_col = (case result T of None \<Rightarrow> None | Some p \<Rightarrow> Some (dumps p)),
           error_col = error T\<rparr>
   \<and> (\<forall>j. j \<noteq> id' T \<longrightarrow>
          simple_select_one (upsert_scheduled_task dumps db T) j = simple_select_one db j)
   \<and> map id_col (upsert_scheduled_task dumps db T) =
        (if id' T \<in> set (map id_col db) then map id_col db else map id_col db @ [id' T])
   \<and> (primary_key db \<longrightarrow> primary_key (upsert_scheduled_task dumps db T))
   \<and> upsert_scheduled_task dumps (upsert_scheduled_task dumps db T) T
        = upsert_scheduled_task dumps db T"
proof -
  have "map id_col (upsert_scheduled_task dumps db T) =
        (if id' T \<in> set (map id_col db) then map id_col db else map id_col db @ [id' T])"
    unfolding upsert_scheduled_task_def by (rule ids_upsert)
  moreover have "primary_key (upsert_scheduled_task dumps db T)" if "primary_key db"
    using that by (simp add: upsert_scheduled_task_def primary_key_upsert)
  moreover have "upsert_scheduled_task dumps (upsert_scheduled_task dumps db T) T
        = upsert_scheduled_task dumps db T"
    by (simp add: upsert_scheduled_task_def upsert_upsert)
  ultimately show ?thesis
    by (simp add: select_upsert_task map_option_case)
qed

theorem upsert_writes_whole_row_witness:
  "simple_select_one
     (upsert_scheduled_task object_dumps [row_t1, row_t2] (task_t1\<lparr>params := None, result := Some []\<rparr>))
     ''t1'' =
     Some \<lparr>id_col = ''t1'', action_col = ''purge_history'', status_col = ''scheduled'',
           timestamp_col = 1000, resource_id_col = Some ''room1'', params_col = None,
           result_col = Some ''{}'', error_col = None\<rparr>
   \<and> ''t2'' \<noteq> ''t1''
   \<and> simple_select_one
       (upsert_scheduled_task object_dumps [row_t1, row_t2] (task_t1\<lparr>params := None, result := Some []\<rparr>))
       ''t2'' = Some row_t2
   \<and> map id_col
       (upsert_scheduled_task object_dumps [row_t1, row_t2] (task_t1\<lparr>params := None, result := Some []\<rparr>))
       = [''t1'', ''t2'']
   \<and> primary_key [row_t1, row_t2]
   \<and> primary_key
       (upsert_scheduled_task object_dumps [row_t1, row_t2] (task_t1\<lparr>params := None, result := Some []\<rparr>))"
proof -
  let ?T = "task_t1\<lparr>params := None, result := Some []\<rparr>"
  have pk: "primary_key [row_t1, row_t2]" by code_simp
  have s2: "simple_select_one [row_t1, row_t2] ''t2'' = Some row_t2" by code_simp
  have ids: "map id_col [row_t1, row_t2] = [''t1'', ''t2'']" by code_simp
  have d: "object_dumps [] = ''{}''" by code_simp
  have T: "id' ?T = ''t1''" "action ?T = ''purge_history''" "status ?T = SCHEDULED"
    "timestamp ?T = 1000" "resource_id ?T = Some ''room1''" "params ?T = None"
    "result ?T = Some []" "error ?T = None"
    by (simp_all add: task_t1_def)
  note t = upsert_writes_whole_row [of object_dumps "[row_t1, row_t2]" ?T, unfolded T ids]
  from t [THEN conjunct1]
  have a: "simple_select_one (upsert_scheduled_task object_dumps [row_t1, row_t2] ?T) ''t1'' =
     Some \<lparr>id_col = ''t1'', action_col = ''purge_history'', status_col = ''scheduled'',
           timestamp_col = 1000, resource_id_col = Some ''room1'', params_col = None,
           result_col = Some ''{}'', error_col = None\<rparr>"
    by (simp add: d)
  have ne: "''t2'' \<noteq> ''t1''" by simp
  from t [THEN conjunct2, THEN conjunct1, rule_format, OF ne]
  have b: "simple_select_one (upsert_scheduled_task object_dumps [row_t1, row_t2] ?T) ''t2''
        = Some row_t2"
    by (simp add: s2)
  from t [THEN conjunct2, THEN conjunct2, THEN conjunct1]
  have c: "map id_col (upsert_scheduled_task object_dumps [row_t1, row_t2] ?T)
       = [''t1'', ''t2'']"
    by simp
  from t [THEN conjunct2, THEN conjunct2, THEN conjunct2, THEN conjunct1, rule_format, OF pk]
  have e: "primary_key (upsert_scheduled_task object_dumps [row_t1, row_t2] ?T)" .
  show ?thesis
    by (intro conjI a ne b c pk e)
qed

subsection \<open>C6: get by id\<close>

text \<open>
  Claim C6. When no stored task has the id, get returns \<^verbatim>\<open>None\<close> as its result and raises
  nothing. When a row has the id, get returns the conversion of that row, by the function
  that list applies to every row it selects; so, with ids being a primary key, every task
  that list returns is the task that get returns for its id.
\<close>

theorem get_absent_or_converted:
  "(simple_select_one db i = None \<longrightarrow> get_scheduled_task loads db i = Inr None)
   \<and> (\<forall>r. simple_select_one db i = Some r \<longrightarrow>
          get_scheduled_task loads db i =
            (case convert_row_to_task loads r of Inl e \<Rightarrow> Inl e | Inr t \<Rightarrow> Inr (Some t)))
   \<and> (\<forall>ts t. primary_key db
          \<and> get_scheduled_tasks loads db actions resource_ids statuses = Inr ts
          \<and> t \<in> set ts \<longrightarrow> get_scheduled_task loads db (id' t) = Inr (Some t))"
proof -
  have "get_scheduled_task loads db (id' t) = Inr (Some t)"
    if pk: "primary_key db"
      and l: "get_scheduled_tasks loads db actions resource_ids statuses = Inr ts"
      and t: "t \<in> set ts" for ts t
  proof -
    from l have "list_all2 (\<lambda>r t. convert_row_to_task loads r = Inr t)
        (get_scheduled_tasks_txn actions resource_ids statuses db) ts"
      by (simp add: get_scheduled_tasks_def convert_rows_Inr)
    with t obtain r where r: "r \<in> set (get_scheduled_tasks_txn actions resource_ids statuses db)"
      and c: "convert_row_to_task loads r = Inr t"
      by (blast dest: list_all2_right_member)
    from r have "r \<in> set db" using txn_subset by blast
    with pk have "simple_select_one db (id_col r) = Some r" by (rule select_unique)
    with c show ?thesis by (simp add: get_scheduled_task_def convert_id)
  qed
  then show ?thesis by (auto simp: get_scheduled_task_def)
qed

theorem get_absent_or_converted_witness:
  "simple_select_one [row_t1, row_t2] ''t9'' = None
   \<and> get_scheduled_task object_loads [row_t1, row_t2] ''t9'' = Inr None
   \<and> simple_select_one [row_t1, row_t2] ''t1'' = Some row_t1
   \<and> get_scheduled_task object_loads [row_t1, row_t2] ''t1'' = Inr (Some task_t1)
   \<and> primary_key [row_t1, row_t2]
   \<and> get_scheduled_tasks object_loads [row_t1, row_t2] None (Some []) None = Inr [task_t2]
   \<and> task_t2 \<in> set [task_t2]
   \<and> get_scheduled_task object_loads [row_t1, row_t2] (id' task_t2) = Inr (Some task_t2)"
proof -
  have n: "simple_select_one [row_t1, row_t2] ''t9'' = None" by code_simp
  have s: "simple_select_one [row_t1, row_t2] ''t1'' = Some row_t1" by code_simp
  have c: "convert_row_to_task object_loads row_t1 = Inr task_t1" by code_simp
  have pk: "primary_key [row_t1, row_t2]" by code_simp
  have l: "get_scheduled_tasks object_loads [row_t1, row_t2] None (Some []) None = Inr [task_t2]"
    by code_simp
  have m: "task_t2 \<in> set [task_t2]" by simp
  note t9 = get_absent_or_converted [of "[row_t1, row_t2]" "''t9''" object_loads None "Some []" None]
  note t1 = get_absent_or_converted [of "[row_t1, row_t2]" "''t1''" object_loads None "Some []" None]
  from t9 n have a: "get_scheduled_task object_loads [row_t1, row_t2] ''t9'' = Inr None"
    by blast
  from t1 s have "get_scheduled_task object_loads [row_t1, row_t2] ''t1'' =
      (case convert_row_to_task object_loads row_t1 of Inl e \<Rightarrow> Inl e | Inr t \<Rightarrow> Inr (Some t))"
    by blast
  then have b: "get_scheduled_task object_loads [row_t1, row_t2] ''t1'' = Inr (Some task_t1)"
    by (simp add: c)
  from t1 pk l m have d: "get_scheduled_task object_loads [row_t1, row_t2] (id' task_t2)
      = Inr (Some task_t2)"
    by blast
  from n a s b pk l m d show ?thesis by simp
qed

subsection \<open>C7: delete\<close>

text \<open>
  Claim C7. Delete removes the rows of the given id and no other row. It raises nothing:
  on an id that is not stored it returns the table as it was, and deleting twice is
  deleting once. For every id, get after delete returns \<^verbatim>\<open>None\<close>.
\<close>

theorem delete_then_get:
  "get_scheduled_task loads (delete_scheduled_task db i) i = Inr None
   \<and> (i \<notin> set (map id_col db) \<longrightarrow> delete_scheduled_task db i = db)
   \<and> delete_scheduled_task (delete_scheduled_task db i) i = delete_scheduled_task db i
   \<and> (\<forall>j. j \<noteq> i \<longrightarrow>
        simple_select_one (delete_scheduled_task db i) j = simple_select_one db j)
   \<and> set (delete_scheduled_task db i) = {r \<in> set db. id_col r \<noteq> i}"
proof -
  have "delete_scheduled_task (delete_scheduled_task db i) i = delete_scheduled_task db i"
    by (simp add: delete_scheduled_task_def simple_delete_def)
  moreover have "set (delete_scheduled_task db i) = {r \<in> set db. id_col r \<noteq> i}"
    by (simp add: delete_scheduled_task_def simple_delete_def)
  ultimately show ?thesis
    by (simp add: get_scheduled_task_def delete_scheduled_task_def select_delete delete_absent)
qed

theorem delete_then_get_witness:
  "get_scheduled_task object_loads (delete_scheduled_task [row_t1, row_t2] ''t1'') ''t1'' = Inr None
   \<and> ''t9'' \<notin> set (map id_col [row_t1, row_t2])
   \<and> delete_scheduled_task [row_t1, row_t2] ''t9'' = [row_t1, row_t2]
   \<and> ''t2'' \<noteq> ''t1''
   \<and> simple_select_one (delete_scheduled_task [row_t1, row_t2] ''t1'') ''t2'' = Some row_t2
   \<and> delete_scheduled_task [row_t1, row_t2] ''t1'' = [row_t2]"
proof -
  have a: "''t9'' \<notin> set (map id_col [row_t1, row_t2])" by code_simp
  have b: "''t2'' \<noteq> ''t1''" by simp
  have s: "simple_select_one [row_t1, row_t2] ''t2'' = Some row_t2" by code_simp
  have d: "delete_scheduled_task [row_t1, row_t2] ''t1'' = [row_t2]" by code_simp
  note t1 = delete_then_get [of object_loads "[row_t1, row_t2]" "''t1''"]
  note t9 = delete_then_get [of object_loads "[row_t1, row_t2]" "''t9''"]
  note g = t1 [THEN conjunct1]
  note e = t9 [THEN conjunct2, THEN conjunct1, rule_format, OF a]
  from t1 [THEN conjunct2, THEN conjunct2, THEN conjunct2, THEN conjunct1, rule_format, OF b]
  have f: "simple_select_one (delete_scheduled_task [row_t1, row_t2] ''t1'') ''t2'' = Some row_t2"
    by (simp add: s)
  show ?thesis
    by (intro conjI g a e b f d)
qed

subsection \<open>C8: a row whose JSON is malformed\<close>

text \<open>
  Claim C8. When the \<^verbatim>\<open>params\<close> or the \<^verbatim>\<open>result\<close> column of a row holds a text that
  \<^verbatim>\<open>json.loads\<close> refuses, converting the row raises; get of that row raises, and so does
  every call of list that selects the row. No task is returned in its place and the row
  is not left out of a list that is returned. With a status that the enum accepts, the
  error raised for the row is the one \<^verbatim>\<open>json.loads\<close> raised.
\<close>

theorem malformed_json_is_raised:
  assumes "malformed loads (params_col r) \<or> malformed loads (result_col r)"
  shows "isl (convert_row_to_task loads r)
     \<and> (simple_select_one db i = Some r \<longrightarrow> isl (get_scheduled_task loads db i))
     \<and> (r \<in> set (get_scheduled_tasks_txn actions resource_ids statuses db) \<longrightarrow>
          isl (get_scheduled_tasks loads db actions resource_ids statuses))
     \<and> (\<forall>st s e. TaskStatus_of (status_col r) = Inr st \<and> params_col r = Some s
            \<and> loads s = Inl e \<longrightarrow> convert_row_to_task loads r = Inl e)
     \<and> (\<forall>st s e. TaskStatus_of (status_col r) = Inr st \<and> \<not> malformed loads (params_col r)
            \<and> result_col r = Some s \<and> loads s = Inl e \<longrightarrow> convert_row_to_task loads r = Inl e)"
proof -
  note c = convert_malformed [OF assms]
  have "isl (get_scheduled_task loads db i)" if "simple_select_one db i = Some r"
    using that c by (auto simp: get_scheduled_task_def split: sum.splits)
  moreover have "isl (get_scheduled_tasks loads db actions resource_ids statuses)"
    if "r \<in> set (get_scheduled_tasks_txn actions resource_ids statuses db)"
    using that c by (simp add: get_scheduled_tasks_def convert_rows_Inl)
  moreover have "convert_row_to_task loads r = Inl e"
    if "TaskStatus_of (status_col r) = Inr st" "params_col r = Some s" "loads s = Inl e"
    for st s e
    using that by (simp add: convert_row_to_task_def)
  moreover have "convert_row_to_task loads r = Inl e"
    if "TaskStatus_of (status_col r) = Inr st" "\<not> malformed loads (params_col r)"
      "result_col r = Some s" "loads s = Inl e"
    for st s e
    using that by (auto simp: convert_row_to_task_def malformed_def split: option.splits sum.splits)
  ultimately show ?thesis using c by blast
qed

theorem malformed_json_is_raised_witness:
  "(malformed object_loads (params_col row_bad_json)
      \<or> malformed object_loads (result_col row_bad_json))
   \<and> isl (convert_row_to_task object_loads row_bad_json)
   \<and> simple_select_one [row_t1, row_bad_json] ''t3'' = Some row_bad_json
   \<and> isl (get_scheduled_task object_loads [row_t1, row_bad_json] ''t3'')
   \<and> row_bad_json \<in> set (get_scheduled_tasks_txn None (Some []) None [row_t1, row_bad_json])
   \<and> isl (get_scheduled_tasks object_loads [row_t1, row_bad_json] None (Some []) None)
   \<and> TaskStatus_of (status_col row_bad_json) = Inr ACTIVE
   \<and> params_col row_bad_json = Some ''{before: 500''
   \<and> object_loads ''{before: 500'' = Inl JSONDecodeError
   \<and> convert_row_to_task object_loads row_bad_json = Inl JSONDecodeError"
proof -
  have m: "malformed object_loads (params_col row_bad_json)
      \<or> malformed object_loads (result_col row_bad_json)"
    by code_simp
  have s: "simple_select_one [row_t1, row_bad_json] ''t3'' = Some row_bad_json" by code_simp
  have l: "row_bad_json \<in> set (get_scheduled_tasks_txn None (Some []) None [row_t1, row_bad_json])"
    by code_simp
  have st: "TaskStatus_of (status_col row_bad_json) = Inr ACTIVE" by code_simp
  have p: "params_col row_bad_json = Some ''{before: 500''" by code_simp
  have e: "object_loads ''{before: 500'' = Inl JSONDecodeError" by code_simp
  note t = malformed_json_is_raised [OF m, of "[row_t1, row_bad_json]" "''t3''" None "Some []" None]
  show ?thesis
    by (intro conjI m s l st p e t [THEN conjunct1]
        t [THEN conjunct2, THEN conjunct1, rule_format, OF s]
        t [THEN conjunct2, THEN conjunct2, THEN conjunct1, rule_format, OF l]
        t [THEN conjunct2, THEN conjunct2, THEN conjunct2, THEN conjunct1, rule_format,
           OF conjI [OF st conjI [OF p e]]])
qed

subsection \<open>C9: update cannot clear a field\<close>

text \<open>
  Claim C9. An argument of update that is \<^verbatim>\<open>None\<close> leaves its column as it is in every
  row, so update has no way to store NULL: when the \<^verbatim>\<open>result\<close> (or the \<^verbatim>\<open>error\<close>) of a
  stored task is present, it is still present after any sequence of updates, whatever
  their ids and arguments. This holds of the stored row and of the task that get returns
  (there the codec is assumed to give back the results that the updates supply). An
  upsert of a task without \<^verbatim>\<open>result\<close> (or \<^verbatim>\<open>error\<close>) does store NULL.
\<close>

theorem update_never_clears:
  "(\<forall>r. simple_select_one db i = Some r \<longrightarrow>
      (\<exists>r'. simple_select_one (do_updates dumps db cs) i = Some r'
         \<and> (result_col r \<noteq> None \<longrightarrow> result_col r' \<noteq> None)
         \<and> (error_col r \<noteq> None \<longrightarrow> error_col r' \<noteq> None)))
   \<and> (\<forall>t. get_scheduled_task loads db i = Inr (Some t)
          \<and> list_all (\<lambda>c. roundtrips dumps loads (call_result c)) cs \<longrightarrow>
      (\<exists>t'. get_scheduled_task loads (do_updates dumps db cs) i = Inr (Some t')
         \<and> (result t \<noteq> None \<longrightarrow> result t' \<noteq> None)
         \<and> (error t \<noteq> None \<longrightarrow> error t' \<noteq> None)))
   \<and> map timestamp_col (snd (update_scheduled_task dumps db i None st res err))
        = map timestamp_col db
   \<and> map status_col (snd (update_scheduled_task dumps db i ts None res err)) = map status_col db
   \<and> map result_col (snd (update_scheduled_task dumps db i ts st None err)) = map result_col db
   \<and> map error_col (snd (update_scheduled_task dumps db i ts st res None)) = map error_col db
   \<and> (result T = None \<longrightarrow>
        (\<exists>r. simple_select_one (upsert_scheduled_task dumps db T) (id' T) = Some r
           \<and> result_col r = None))
   \<and> (error T = None \<longrightarrow>
        (\<exists>r. simple_select_one (upsert_scheduled_task dumps db T) (id' T) = Some r
           \<and> error_col r = None))"
proof -
  have "map timestamp_col (snd (update_scheduled_task dumps db i None st res err))
        = map timestamp_col db"
    and "map status_col (snd (update_scheduled_task dumps db i ts None res err)) = map status_col db"
    and "map result_col (snd (update_scheduled_task dumps db i ts st None err)) = map result_col db"
    and "map error_col (snd (update_scheduled_task dumps db i ts st res None)) = map error_col db"
    by (simp_all add: update_table assign_def update_dict_def o_def cong: map_cong)
  moreover have "\<exists>r. simple_select_one (upsert_scheduled_task dumps db T) (id' T) = Some r
           \<and> result_col r = None" if "result T = None"
    using that by (simp add: select_upsert_task)
  moreover have "\<exists>r. simple_select_one (upsert_scheduled_task dumps db T) (id' T) = Some r
           \<and> error_col r = None" if "error T = None"
    using that by (simp add: select_upsert_task)
  moreover have "\<exists>t'. get_scheduled_task loads (do_updates dumps db cs) i = Inr (Some t')
         \<and> (result t \<noteq> None \<longrightarrow> result t' \<noteq> None)
         \<and> (error t \<noteq> None \<longrightarrow> error t' \<noteq> None)"
    if "get_scheduled_task loads db i = Inr (Some t)"
      and "list_all (\<lambda>c. roundtrips dumps loads (call_result c)) cs" for t
    using that by (rule do_updates_get)
  ultimately show ?thesis
    using do_updates_keep [of db i _ dumps cs] by blast
qed

theorem update_never_clears_witness:
  "simple_select_one [row_t1, row_t2] ''t2'' = Some row_t2
   \<and> result_col row_t2 \<noteq> None
   \<and> (\<exists>r'. simple_select_one
              (do_updates object_dumps [row_t1, row_t2]
                 [\<lparr>call_id = ''t2'', call_timestamp = None, call_status = Some FAILED,
                    call_result = None, call_error = Some ''boom''\<rparr>,
                  \<lparr>call_id = ''t2'', call_timestamp = Some 2005, call_status = None,
                    call_result = Some [], call_error = None\<rparr>]) ''t2'' = Some r'
            \<and> result_col r' \<noteq> None)
   \<and> simple_select_one
        (do_updates object_dumps [row_t1, row_t2]
           [\<lparr>call_id = ''t2'', call_timestamp = None, call_status = Some FAILED,
              call_result = None, call_error = Some ''boom''\<rparr>,
            \<lparr>call_id = ''t2'', call_timestamp = Some 2005, call_status = None,
              call_result = Some [], call_error = None\<rparr>]) ''t2''
        = Some (row_t2\<lparr>status_col := ''failed'', timestamp_col := 2005,
                        result_col := Some ''{}'', error_col := Some ''boom''\<rparr>)
   \<and> get_scheduled_task object_loads [row_t1, row_t2] ''t2'' = Inr (Some task_t2)
   \<and> list_all (\<lambda>c. roundtrips object_dumps object_loads (call_result c))
        [\<lparr>call_id = ''t2'', call_timestamp = None, call_status = Some FAILED,
           call_result = None, call_error = Some ''boom''\<rparr>,
         \<lparr>call_id = ''t2'', call_timestamp = Some 2005, call_status = None,
           call_result = Some [], call_error = None\<rparr>]
   \<and> result task_t2 \<noteq> None
   \<and> (\<exists>t'. get_scheduled_task object_loads
              (do_updates object_dumps [row_t1, row_t2]
                 [\<lparr>call_id = ''t2'', call_timestamp = None, call_status = Some FAILED,
                    call_result = None, call_error = Some ''boom''\<rparr>,
                  \<lparr>call_id = ''t2'', call_timestamp = Some 2005, call_status = None,
                    call_result = Some [], call_error = None\<rparr>]) ''t2'' = Inr (Some t')
            \<and> result t' \<noteq> None)
   \<and> result (task_t2\<lparr>result := None\<rparr>) = None
   \<and> (\<exists>r. simple_select_one
             (upsert_scheduled_task object_dumps [row_t1, row_t2] (task_t2\<lparr>result := None\<rparr>))
             (id' (task_t2\<lparr>result := None\<rparr>)) = Some r
           \<and> result_col r = None)"
proof -
  let ?cs = "[\<lparr>call_id = ''t2'', call_timestamp = None, call_status = Some FAILED,
                    call_result = None, call_error = Some ''boom''\<rparr>,
                  \<lparr>call_id = ''t2'', call_timestamp = Some 2005, call_status = None,
                    call_result = Some [], call_error = None\<rparr>]"
  let ?T = "task_t2\<lparr>result := None\<rparr>"
  have s: "simple_select_one [row_t1, row_t2] ''t2'' = Some row_t2" by code_simp
  have p: "result_col row_t2 \<noteq> None" by code_simp
  have v: "simple_select_one (do_updates object_dumps [row_t1, row_t2] ?cs) ''t2''
        = Some (row_t2\<lparr>status_col := ''failed'', timestamp_col := 2005,
                        result_col := Some ''{}'', error_col := Some ''boom''\<rparr>)"
    by code_simp
  have g: "get_scheduled_task object_loads [row_t1, row_t2] ''t2'' = Inr (Some task_t2)"
    by code_simp
  have rt: "list_all (\<lambda>c. roundtrips object_dumps object_loads (call_result c)) ?cs"
    by code_simp
  have q: "result task_t2 \<noteq> None" by code_simp
  have n: "result ?T = None" by simp
  note t = update_never_clears [of "[row_t1, row_t2]" "''t2''" object_dumps ?cs object_loads
      _ _ _ _ ?T]
  from t [THEN conjunct1, rule_format, OF s] p
  have k: "\<exists>r'. simple_select_one (do_updates object_dumps [row_t1, row_t2] ?cs) ''t2'' = Some r'
            \<and> result_col r' \<noteq> None"
    by blast
  from t [THEN conjunct2, THEN conjunct1, rule_format, OF conjI [OF g rt]] q
  have k2: "\<exists>t'. get_scheduled_task object_loads
              (do_updates object_dumps [row_t1, row_t2] ?cs) ''t2'' = Inr (Some t')
            \<and> result t' \<noteq> None"
    by blast
  note u = t [THEN conjunct2, THEN conjunct2, THEN conjunct2, THEN conjunct2, THEN conjunct2,
      THEN conjunct2, THEN conjunct1, rule_format, OF n]
  show ?thesis
    by (intro conjI s p k v g rt q k2 n u)
qed

subsection \<open>C10: the status of a returned task\<close>

text \<open>
  Claim C10. The status of every task that get or list returns is one of the four
  members of the enum, and it is the member whose value the row stores. When the status
  column of a row holds any other text, converting the row raises \<^verbatim>\<open>ValueError\<close>: get
  of that row raises it, and every call of list that selects the row raises instead of
  returning tasks.
\<close>

theorem status_is_enumerated:
  "(\<forall>t. get_scheduled_task loads db i = Inr (Some t) \<longrightarrow>
       status t \<in> {SCHEDULED, ACTIVE, COMPLETE, FAILED}
       \<and> (\<exists>r. simple_select_one db i = Some r \<and> status_col r = status_value (status t)))
   \<and> (\<forall>ts. get_scheduled_tasks loads db actions resource_ids statuses = Inr ts \<longrightarrow>
       (\<forall>t \<in> set ts. status t \<in> {SCHEDULED, ACTIVE, COMPLETE, FAILED})
       \<and> list_all2 (\<lambda>r t. status_col r = status_value (status t))
            (get_scheduled_tasks_txn actions resource_ids statuses db) ts)
   \<and> (status_col r \<notin> {''scheduled'', ''active'', ''complete'', ''failed''} \<longrightarrow>
       convert_row_to_task loads r = Inl ValueError
       \<and> (simple_select_one db i = Some r \<longrightarrow> get_scheduled_task loads db i = Inl ValueError)
       \<and> (r \<in> set (get_scheduled_tasks_txn actions resource_ids statuses db) \<longrightarrow>
            isl (get_scheduled_tasks loads db actions resource_ids statuses)))"
proof -
  have e: "s \<in> {SCHEDULED, ACTIVE, COMPLETE, FAILED}" for s
    by (cases s) simp_all
  have g: "\<exists>r. simple_select_one db i = Some r \<and> status_col r = status_value (status t)"
    if "get_scheduled_task loads db i = Inr (Some t)" for t
    using that
    by (auto simp: get_scheduled_task_def split: option.splits sum.splits dest: convert_status)
  have l: "list_all2 (\<lambda>r t. status_col r = status_value (status t))
            (get_scheduled_tasks_txn actions resource_ids statuses db) ts"
    if "get_scheduled_tasks loads db actions resource_ids statuses = Inr ts" for ts
  proof -
    from that have "list_all2 (\<lambda>r t. convert_row_to_task loads r = Inr t)
        (get_scheduled_tasks_txn actions resource_ids statuses db) ts"
      by (simp add: get_scheduled_tasks_def convert_rows_Inr)
    then show ?thesis
      by (rule list_all2_mono) (rule convert_status)
  qed
  have b: "isl (get_scheduled_tasks loads db actions resource_ids statuses)"
    if "status_col r \<notin> {''scheduled'', ''active'', ''complete'', ''failed''}"
      and "r \<in> set (get_scheduled_tasks_txn actions resource_ids statuses db)"
    using that convert_bad_status [of r loads]
    by (simp add: get_scheduled_tasks_def convert_rows_Inl)
  have b2: "get_scheduled_task loads db i = Inl ValueError"
    if "status_col r \<notin> {''scheduled'', ''active'', ''complete'', ''failed''}"
      and "simple_select_one db i = Some r"
    using that convert_bad_status [of r loads] by (simp add: get_scheduled_task_def)
  show ?thesis
    using e g l b b2 convert_bad_status [of r loads] by blast
qed

theorem status_is_enumerated_witness:
  "get_scheduled_task object_loads [row_t1, row_bad_status] ''t1'' = Inr (Some task_t1)
   \<and> status task_t1 \<in> {SCHEDULED, ACTIVE, COMPLETE, FAILED}
   \<and> (\<exists>r. simple_select_one [row_t1, row_bad_status] ''t1'' = Some r
          \<and> status_col r = status_value (status task_t1))
   \<and> get_scheduled_tasks object_loads [row_t1, row_bad_status] None (Some [''room1'']) None
       = Inr [task_t1]
   \<and> list_all2 (\<lambda>r t. status_col r = status_value (status t))
       (get_scheduled_tasks_txn None (Some [''room1'']) None [row_t1, row_bad_status]) [task_t1]
   \<and> status_col row_bad_status \<notin> {''scheduled'', ''active'', ''complete'', ''failed''}
   \<and> convert_row_to_task object_loads row_bad_status = Inl ValueError
   \<and> simple_select_one [row_t1, row_bad_status] ''t4'' = Some row_bad_status
   \<and> get_scheduled_task object_loads [row_t1, row_bad_status] ''t4'' = Inl ValueError
   \<and> row_bad_status \<in> set (get_scheduled_tasks_txn None None None [row_t1, row_bad_status])
   \<and> isl (get_scheduled_tasks object_loads [row_t1, row_bad_status] None None None)"
proof -
  have g: "get_scheduled_task object_loads [row_t1, row_bad_status] ''t1'' = Inr (Some task_t1)"
    by code_simp
  have l: "get_scheduled_tasks object_loads [row_t1, row_bad_status] None (Some [''room1'']) None
       = Inr [task_t1]"
    by code_simp
  have b: "status_col row_bad_status \<notin> {''scheduled'', ''active'', ''complete'', ''failed''}"
    by code_simp
  have s: "simple_select_one [row_t1, row_bad_status] ''t4'' = Some row_bad_status" by code_simp
  have m: "row_bad_status \<in> set (get_scheduled_tasks_txn None None None [row_t1, row_bad_status])"
    by code_simp
  note t1 = status_is_enumerated [of object_loads "[row_t1, row_bad_status]" "''t1''"
      None "Some [''room1'']" None row_bad_status]
  note t4 = status_is_enumerated [of object_loads "[row_t1, row_bad_status]" "''t4''"
      None None None row_bad_status]
  note a = t1 [THEN conjunct1, rule_format, OF g]
  note c = t1 [THEN conjunct2, THEN conjunct1, rule_format, OF l]
  note d = t4 [THEN conjunct2, THEN conjunct2, rule_format, OF b]
  show ?thesis
    by (intro conjI g a [THEN conjunct1] a [THEN conjunct2] l c [THEN conjunct2] b
        d [THEN conjunct1] s d [THEN conjunct2, THEN conjunct1, rule_format, OF s] m
        d [THEN conjunct2, THEN conjunct2, rule_format, OF m])
qed

end
